theory Spec2Isabelle
  imports Main "HOL-Library.Word"
begin

unbundle bit_operations_syntax

section \<open>Go values shared by both packages\<close>

text \<open>
  A Go \<^verbatim>\<open>error\<close> is either a plain message (\<^verbatim>\<open>errors.New\<close>, \<^verbatim>\<open>fmt.Errorf\<close> without
  \<^verbatim>\<open>%w\<close>, an errno of the operating system) or a message prefix wrapping another error
  (\<^verbatim>\<open>fmt.Errorf("...: %w", err)\<close>). A function returning \<^verbatim>\<open>error\<close> returns
  \<open>error option\<close> here (\<open>None\<close> is \<^verbatim>\<open>nil\<close>); one returning \<^verbatim>\<open>(T, error)\<close> returns
  \<open>error + T\<close>.
\<close>

datatype error = New string | Wrap string error

fun Error :: "error \<Rightarrow> string" where
  "Error (New m) = m"
| "Error (Wrap p e) = p @ Error e"

text \<open>\<^verbatim>\<open>os.FileInfo\<close>, as far as the code reads it.\<close>

record file_info =
  IsDir :: bool
  Mode :: "32 word"

text \<open>
  Everything the code asks of the operating system and of the Go standard library's
  platform-dependent functions. None of it is code of the repository; it is a parameter of
  the model.
\<close>

record os =
  GOOS :: string
  os_Getenv :: "string \<Rightarrow> string"
  os_PathSeparator :: char
  filepath_Base :: "string \<Rightarrow> string"
  filepath_Join :: "string list \<Rightarrow> string"
  filepath_SplitList :: "string \<Rightarrow> string list"
  filepath_Abs :: "string \<Rightarrow> error + string"
  os_Open :: "string \<Rightarrow> error + (error + string)"
  os_ReadFile :: "string \<Rightarrow> error + string"
  os_Stat :: "string \<Rightarrow> error + file_info"
  os_UserHomeDir :: "error + string"
  os_TempDir :: string
  os_Getuid :: int
  os_MkdirAll :: "string \<Rightarrow> error option"
  unveil_errno :: "string \<Rightarrow> string \<Rightarrow> error option"
  unveil_block_errno :: "error option"

section \<open>Strings\<close>

text \<open>\<^verbatim>\<open>strings.HasPrefix\<close>, \<^verbatim>\<open>strings.Contains\<close>, \<^verbatim>\<open>strings.IndexByte\<close> (-1 when the
  byte is absent), \<^verbatim>\<open>strings.Join\<close> and \<^verbatim>\<open>strings.Fields\<close> on a space-separated list.\<close>

definition HasPrefix :: "string \<Rightarrow> string \<Rightarrow> bool" where
  "HasPrefix s p = (length p \<le> length s \<and> take (length p) s = p)"

fun Contains :: "string \<Rightarrow> string \<Rightarrow> bool" where
  "Contains [] sub = (sub = [])"
| "Contains (c # cs) sub = (HasPrefix (c # cs) sub \<or> Contains cs sub)"

fun IndexByte :: "string \<Rightarrow> char \<Rightarrow> int" where
  "IndexByte [] b = -1"
| "IndexByte (c # cs) b =
     (if c = b then 0 else (let i = IndexByte cs b in if i = -1 then -1 else i + 1))"

fun Join :: "string list \<Rightarrow> string \<Rightarrow> string" where
  "Join [] sep = []"
| "Join [a] sep = a"
| "Join (a # b # rest) sep = a @ sep @ Join (b # rest) sep"

fun split_on :: "char \<Rightarrow> string \<Rightarrow> string list" where
  "split_on d [] = [[]]"
| "split_on d (c # cs) =
     (if c = d then [] # split_on d cs
      else (case split_on d cs of [] \<Rightarrow> [[c]] | w # ws \<Rightarrow> (c # w) # ws))"

definition Fields :: "string \<Rightarrow> string list" where
  "Fields s = filter (\<lambda>w. w \<noteq> []) (split_on CHR '' '' s)"

text \<open>\<^verbatim>\<open>%d\<close> of \<^verbatim>\<open>fmt.Sprintf\<close>.\<close>

fun utoa :: "nat \<Rightarrow> string" where
  "utoa n = (if n < 10 then [''0123456789'' ! n] else utoa (n div 10) @ [''0123456789'' ! (n mod 10)])"

definition itoa :: "int \<Rightarrow> string" where
  "itoa i = (if i < 0 then ''-'' @ utoa (nat (- i)) else utoa (nat i))"

section \<open>Package shell: the command blocklist\<close>

type_synonym BlockFunc = "string list \<Rightarrow> bool"

record Shell =
  env :: "string list"
  cwd :: string
  blockFuncs :: "BlockFunc list"

text \<open>\<^verbatim>\<open>CommandsBlocker\<close>: the banned names are collected in a map used as a set, and the
  first token is looked up in it; an empty token list is never blocked.\<close>

fun bannedSet_loop :: "string list \<Rightarrow> (string \<rightharpoonup> unit) \<Rightarrow> (string \<rightharpoonup> unit)" where
  "bannedSet_loop [] m = m"
| "bannedSet_loop (c # cs) m = bannedSet_loop cs (m(c \<mapsto> ()))"

definition CommandsBlocker :: "string list \<Rightarrow> BlockFunc" where
  "CommandsBlocker cmds =
     (let bannedSet = bannedSet_loop cmds Map.empty
      in (\<lambda>args. case args of [] \<Rightarrow> False | a0 # _ \<Rightarrow> bannedSet a0 \<noteq> None))"

text \<open>\<^verbatim>\<open>splitArgsFlags\<close>: one pass over the tokens, appending each to \<^verbatim>\<open>flags\<close> (cut at
  its first \<^verbatim>\<open>=\<close>) when it starts with \<^verbatim>\<open>-\<close> and to \<^verbatim>\<open>args\<close> otherwise.\<close>

definition flag_of :: "string \<Rightarrow> string" where
  "flag_of part = (let idx = IndexByte part CHR ''='' in if idx \<noteq> -1 then take (nat idx) part else part)"

fun splitArgsFlags_loop :: "string list \<Rightarrow> string list \<Rightarrow> string list \<Rightarrow> string list \<times> string list" where
  "splitArgsFlags_loop [] args flags = (args, flags)"
| "splitArgsFlags_loop (part # parts) args flags =
     (if HasPrefix part ''-'' then splitArgsFlags_loop parts args (flags @ [flag_of part])
      else splitArgsFlags_loop parts (args @ [part]) flags)"

definition splitArgsFlags :: "string list \<Rightarrow> string list \<times> string list" where
  "splitArgsFlags parts = splitArgsFlags_loop parts [] []"

text \<open>\<^verbatim>\<open>slice.IsSubset(a, b)\<close> of charmbracelet/x/exp/slice: every element of \<open>a\<close> occurs
  in \<open>b\<close>, and \<open>a\<close> is not longer than \<open>b\<close>.\<close>

definition IsSubset :: "'a list \<Rightarrow> 'a list \<Rightarrow> bool" where
  "IsSubset a b = (if length a > length b then False else list_all (\<lambda>item. item \<in> set b) a)"

definition ArgumentsBlocker :: "string \<Rightarrow> string list \<Rightarrow> string list \<Rightarrow> BlockFunc" where
  "ArgumentsBlocker cmd args flags =
     (\<lambda>parts. case parts of
        [] \<Rightarrow> False
      | p0 # rest \<Rightarrow>
          if p0 \<noteq> cmd then False
          else (case splitArgsFlags rest of
            (argParts, flagParts) \<Rightarrow>
              if length argParts < length args \<or> length flagParts < length flags then False
              else (let argsMatch = (take (length args) argParts = args);
                        flagsMatch = IsSubset flags flagParts
                    in argsMatch \<and> flagsMatch)))"

text \<open>The reading of the blocker in the specification's words: the first token is the
  command, the first \<open>length args\<close> non-flag tokens after it are \<open>args\<close>, and every
  required flag is the identity (the part before any \<^verbatim>\<open>=\<close>) of some flag token.\<close>

definition is_flag_token :: "string \<Rightarrow> bool" where
  "is_flag_token t = (case t of [] \<Rightarrow> False | c # _ \<Rightarrow> c = CHR ''-'')"

definition flag_identity :: "string \<Rightarrow> string" where
  "flag_identity t = takeWhile (\<lambda>c. c \<noteq> CHR ''='') t"

definition ArgumentsBlocker_spec :: "string \<Rightarrow> string list \<Rightarrow> string list \<Rightarrow> string list \<Rightarrow> bool" where
  "ArgumentsBlocker_spec cmd args flags parts =
     (case parts of
        [] \<Rightarrow> False
      | p0 # rest \<Rightarrow>
          p0 = cmd
          \<and> length args \<le> length (filter (\<lambda>t. \<not> is_flag_token t) rest)
          \<and> take (length args) (filter (\<lambda>t. \<not> is_flag_token t) rest) = args
          \<and> set flags \<subseteq> set (map flag_identity (filter is_flag_token rest)))"

section \<open>Package shell: the exec handlers\<close>

text \<open>
  An exec handler receives the handler context of the interpreter (\<^verbatim>\<open>interp.HandlerCtx\<close>:
  the environment and the directory; the output streams are not modelled) and the argv of
  the command to spawn. A middleware wraps the next handler.
\<close>

record HandlerCtx =
  hc_Env :: "(string \<times> string) list"
  hc_Dir :: string

type_synonym ExecHandlerFunc = "HandlerCtx \<Rightarrow> string list \<Rightarrow> error option"

text \<open>
  The shell interpreter mvdan.cc/sh, none of it code of the repository: its parser; the
  construction of a runner by \<^verbatim>\<open>interp.New\<close> from the options the source passes, that is
  \<^verbatim>\<open>interp.Env(env)\<close>, \<^verbatim>\<open>interp.Dir(dir)\<close> and \<^verbatim>\<open>interp.Params(params...)\<close> (the standard
  streams and the exec handlers of the session are not modelled); the run of a parsed
  script by a runner; and the in-process core utilities of mvdan.cc/sh/moreinterp.
  Whether a runner can be built depends on the options: \<^verbatim>\<open>interp.Params\<close> reads leading
  tokens that start with \<^verbatim>\<open>-\<close> or \<^verbatim>\<open>+\<close> as shell options and fails on one it does not know,
  and only what follows them becomes the positional parameters of the runner.
\<close>

record ('ast, 'runner) interp =
  syntax_Parse :: "string \<Rightarrow> error + 'ast"
  interp_New :: "(string \<times> string) list \<Rightarrow> string \<Rightarrow> string list \<Rightarrow> error + 'runner"
  runner_Run :: "'runner \<Rightarrow> 'ast \<Rightarrow> error option"
  coreutils_ExecHandler :: "ExecHandlerFunc \<Rightarrow> ExecHandlerFunc"

definition runScript ::
  "('ast, 'runner) interp \<Rightarrow> string \<Rightarrow> string list \<Rightarrow> (string \<times> string) list \<Rightarrow> string \<Rightarrow> error option" where
  "runScript ip content params env' dir =
     (case syntax_Parse ip content of
        Inl err \<Rightarrow> Some (Wrap ''could not parse script: '' err)
      | Inr line \<Rightarrow>
          (case interp_New ip env' dir params of
             Inl err \<Rightarrow> Some (Wrap ''could not run command: '' err)
           | Inr runner \<Rightarrow> runner_Run ip runner line))"

fun blockFuncs_loop :: "BlockFunc list \<Rightarrow> string list \<Rightarrow> bool" where
  "blockFuncs_loop [] args = False"
| "blockFuncs_loop (blockFunc # rest) args = (if blockFunc args then True else blockFuncs_loop rest args)"

definition blockHandler :: "Shell \<Rightarrow> ExecHandlerFunc \<Rightarrow> ExecHandlerFunc" where
  "blockHandler s next ctx args =
     (if length args = 0 then next ctx args
      else if blockFuncs_loop (blockFuncs s) args
        then Some (New (''command is not allowed for security reasons: '' @ Join args '' ''))
      else next ctx args)"

text \<open>
  The argument scan of \<^verbatim>\<open>shHandler\<close>, over the tokens \<^verbatim>\<open>args[i:]\<close> still to be read:
  \<^verbatim>\<open>-c\<close> takes the next token as the script text and what follows it as the parameters,
  and fails when nothing follows; the first token that does not start with \<^verbatim>\<open>-\<close> is the
  script file, and the parameters start with it. The three variables keep their zero
  values when the loop ends without a \<^verbatim>\<open>break\<close>.
\<close>

datatype sh_scan = MissingScript | Scanned (scriptFile: string) (scriptContent: string) (params: "string list")

fun sh_scan_loop :: "string list \<Rightarrow> sh_scan" where
  "sh_scan_loop [] = Scanned [] [] []"
| "sh_scan_loop (a # rest) =
     (if a = ''-c'' then
        (case rest of
           [] \<Rightarrow> MissingScript
         | content # after \<Rightarrow> Scanned [] content (if after \<noteq> [] then after else []))
      else if \<not> HasPrefix a ''-'' then Scanned a [] (a # rest)
      else sh_scan_loop rest)"

definition shHandler :: "os \<Rightarrow> ('ast, 'runner) interp \<Rightarrow> ExecHandlerFunc \<Rightarrow> ExecHandlerFunc" where
  "shHandler sys ip next ctx args =
     (case args of
        [] \<Rightarrow> next ctx args
      | a0 # rest \<Rightarrow>
          (let cmd = filepath_Base sys a0 in
           if cmd = ''sh'' \<or> cmd = ''bash'' then
             (case sh_scan_loop rest of
                MissingScript \<Rightarrow> Some (New (cmd @ '': -c requires an argument''))
              | Scanned file content ps \<Rightarrow>
                  if content \<noteq> [] then runScript ip content ps (hc_Env ctx) (hc_Dir ctx)
                  else if file \<noteq> [] then
                    (case os_ReadFile sys file of
                       Inl err \<Rightarrow> Some err
                     | Inr text \<Rightarrow> runScript ip text ps (hc_Env ctx) (hc_Dir ctx))
                  else Some (New (cmd @ '': interactive mode not supported'')))
           else next ctx args))"

text \<open>\<^verbatim>\<open>isShellScript\<close>: the file is opened and at most 128 bytes are read; a failure of
  either (other than end of file, which leaves an empty header) answers false.\<close>

definition isShellScript :: "os \<Rightarrow> string \<Rightarrow> bool" where
  "isShellScript sys path =
     (case os_Open sys path of
        Inl err \<Rightarrow> False
      | Inr f \<Rightarrow>
          (case f of
             Inl err \<Rightarrow> False
           | Inr bytes \<Rightarrow>
               (let header = take 128 bytes in
                HasPrefix header ''#!'' \<and>
                (Contains header ''/bin/sh'' \<or>
                 Contains header ''/bin/bash'' \<or>
                 Contains header '' env sh'' \<or>
                 Contains header '' env bash''))))"

fun lookPath_loop :: "os \<Rightarrow> string \<Rightarrow> string list \<Rightarrow> error + string" where
  "lookPath_loop sys file [] = Inl (New ''file does not exist'')"
| "lookPath_loop sys file (dir # dirs) =
     (let dir' = (if dir = [] then ''.'' else dir);
          path = filepath_Join sys [dir', file]
      in case os_Stat sys path of
           Inr info \<Rightarrow>
             if \<not> IsDir info \<and> (Mode info AND 73) \<noteq> 0 then Inr path
             else lookPath_loop sys file dirs
         | Inl err \<Rightarrow> lookPath_loop sys file dirs)"

definition lookPath :: "os \<Rightarrow> string \<Rightarrow> string \<Rightarrow> error + string" where
  "lookPath sys file pathEnv =
     (if pathEnv = [] then Inl (New ''file does not exist'')
      else lookPath_loop sys file (filepath_SplitList sys pathEnv))"

definition scriptExecutionHandler :: "os \<Rightarrow> ('ast, 'runner) interp \<Rightarrow> ExecHandlerFunc \<Rightarrow> ExecHandlerFunc" where
  "scriptExecutionHandler sys ip next ctx args =
     (case args of
        [] \<Rightarrow> next ctx args
      | a0 # _ \<Rightarrow>
          (let base = filepath_Base sys a0 in
           if base = ''sh'' \<or> base = ''bash'' then next ctx args
           else
             (let resolved =
                (if \<not> Contains a0 [os_PathSeparator sys] then
                   (let pathEnv = (case map_of (hc_Env ctx) ''PATH'' of Some v \<Rightarrow> v | None \<Rightarrow> [])
                    in lookPath sys a0 pathEnv)
                 else Inr a0)
              in case resolved of
                   Inl err \<Rightarrow> next ctx args
                 | Inr path \<Rightarrow>
                     if isShellScript sys path then
                       (case os_ReadFile sys path of
                          Inl err \<Rightarrow> Some err
                        | Inr content \<Rightarrow> runScript ip content args (hc_Env ctx) (hc_Dir ctx))
                     else next ctx args)))"

text \<open>\<^verbatim>\<open>strconv.ParseBool\<close> (it accepts the twelve spellings below and nothing else) and
  the package's \<^verbatim>\<open>init\<close>, which sets \<^verbatim>\<open>useGoCoreUtils\<close>. An unset variable reads as the empty
  string.\<close>

definition ParseBool :: "string \<Rightarrow> error + bool" where
  "ParseBool str =
     (if str \<in> set [''1'', ''t'', ''T'', ''TRUE'', ''true'', ''True''] then Inr True
      else if str \<in> set [''0'', ''f'', ''F'', ''FALSE'', ''false'', ''False''] then Inr False
      else Inl (New (''strconv.ParseBool: parsing '' @ [CHR 0x22] @ str @ [CHR 0x22] @ '': invalid syntax'')))"

definition useGoCoreUtils :: "os \<Rightarrow> bool" where
  "useGoCoreUtils sys =
     (case ParseBool (os_Getenv sys ''CRUSH_CORE_UTILS'') of
        Inr v \<Rightarrow> v
      | Inl err \<Rightarrow> GOOS sys = ''windows'' \<or> GOOS sys = ''openbsd'')"

definition execHandlers :: "os \<Rightarrow> ('ast, 'runner) interp \<Rightarrow> Shell \<Rightarrow> (ExecHandlerFunc \<Rightarrow> ExecHandlerFunc) list" where
  "execHandlers sys ip s =
     (let handlers = [blockHandler s] in
      if useGoCoreUtils sys
      then handlers @ [shHandler sys ip] @ [scriptExecutionHandler sys ip] @ [coreutils_ExecHandler ip]
      else handlers)"

text \<open>\<^verbatim>\<open>interp.ExecHandlers\<close> of mvdan.cc/sh wraps the interpreter's default handler (the
  native spawn) in the middlewares from the last to the first, so the first of the list
  sees a command first.\<close>

definition apply_middlewares :: "(ExecHandlerFunc \<Rightarrow> ExecHandlerFunc) list \<Rightarrow> ExecHandlerFunc \<Rightarrow> ExecHandlerFunc" where
  "apply_middlewares mws native = foldr (\<lambda>mw next. mw next) mws native"

text \<open>The platforms on which the file-system restriction exists and is not inherited by
  a native child: the sandbox is built for OpenBSD only (\<^verbatim>\<open>//go:build openbsd\<close>), where
  \<^verbatim>\<open>unveil\<close> is not inherited through \<^verbatim>\<open>exec\<close>.\<close>

definition restriction_not_inherited :: "string \<Rightarrow> bool" where
  "restriction_not_inherited goos = (goos = ''openbsd'')"

section \<open>Package security: the OpenBSD sandbox\<close>

text \<open>
  The process-wide state the package reads and writes: its own \<^verbatim>\<open>initialized\<close> flag,
  and, in the kernel, the paths revealed so far with their permissions, whether the reveal
  list is locked, and the promises in force (\<open>None\<close> before any \<^verbatim>\<open>pledge\<close>). The debug
  log is kept as the list of messages with their attributes. The mutex is not modelled:
  every operation runs from lock to unlock without interleaving.
\<close>

type_synonym log_entry = "string \<times> (string \<times> string) list"

record sandbox =
  initialized :: bool
  unveiled :: "(string \<times> string) list"
  unveil_locked :: bool
  pledged :: "string set option"
  slog :: "log_entry list"

definition slog_Debug :: "string \<Rightarrow> (string \<times> string) list \<Rightarrow> sandbox \<Rightarrow> sandbox" where
  "slog_Debug msg attrs s = s\<lparr>slog := slog s @ [(msg, attrs)]\<rparr>"

definition allPromises :: string where
  "allPromises = ''stdio rpath wpath cpath dpath flock fattr proc exec inet dns unix tty getpw''"

definition shutdownPromises :: string where
  "shutdownPromises = ''stdio''"

text \<open>
  The three kernel calls. Whether a path can be revealed, and whether the list can be
  locked, is the operating system's answer. \<^verbatim>\<open>pledge\<close> follows the rule the source states
  (it can only drop promises, never add them): a request is granted when no promise is in
  force yet or when it asks for no promise beyond those in force, and is refused otherwise.
\<close>

definition unix_Unveil :: "os \<Rightarrow> string \<Rightarrow> string \<Rightarrow> sandbox \<Rightarrow> error option \<times> sandbox" where
  "unix_Unveil sys path perms s =
     (case unveil_errno sys path perms of
        Some err \<Rightarrow> (Some err, s)
      | None \<Rightarrow> (None, s\<lparr>unveiled := unveiled s @ [(path, perms)]\<rparr>))"

definition unix_UnveilBlock :: "os \<Rightarrow> sandbox \<Rightarrow> error option \<times> sandbox" where
  "unix_UnveilBlock sys s =
     (case unveil_block_errno sys of
        Some err \<Rightarrow> (Some err, s)
      | None \<Rightarrow> (None, s\<lparr>unveil_locked := True\<rparr>))"

definition pledge_permitted :: "string set option \<Rightarrow> string \<Rightarrow> bool" where
  "pledge_permitted current promises =
     (case current of None \<Rightarrow> True | Some cur \<Rightarrow> set (Fields promises) \<subseteq> cur)"

definition unix_PledgePromises :: "string \<Rightarrow> sandbox \<Rightarrow> error option \<times> sandbox" where
  "unix_PledgePromises promises s =
     (if pledge_permitted (pledged s) promises
      then (None, s\<lparr>pledged := Some (set (Fields promises))\<rparr>)
      else (Some (New ''operation not permitted''), s))"

text \<open>\<^verbatim>\<open>setupUnveil\<close>, block by block. The count of revealed paths is only logged.\<close>

definition systemPaths :: "(string \<times> string) list" where
  "systemPaths =
     [(''/usr/lib'', ''r''), (''/usr/local/lib'', ''r''), (''/usr/bin'', ''rx''),
      (''/usr/local/bin'', ''rx''), (''/bin'', ''rx''), (''/sbin'', ''r''),
      (''/etc/ssl/cert.pem'', ''r''), (''/etc/ssl/certs'', ''r''),
      (''/etc/resolv.conf'', ''r''), (''/etc/hosts'', ''r''),
      (''/etc/passwd'', ''r''),
      (''/usr/share/zoneinfo'', ''r''), (''/etc/localtime'', ''r''),
      (''/dev/null'', ''rw''), (''/dev/tty'', ''rw''), (''/dev/urandom'', ''r'')]"

fun systemPaths_loop :: "os \<Rightarrow> (string \<times> string) list \<Rightarrow> sandbox \<Rightarrow> nat \<Rightarrow> sandbox \<times> nat" where
  "systemPaths_loop sys [] s unveilCount = (s, unveilCount)"
| "systemPaths_loop sys ((path, perms) # rest) s unveilCount =
     (case unix_Unveil sys path perms s of
        (Some err, s') \<Rightarrow>
          systemPaths_loop sys rest
            (slog_Debug ''unveil skipped'' [(''path'', path), (''error'', Error err)] s') unveilCount
      | (None, s') \<Rightarrow> systemPaths_loop sys rest s' (unveilCount + 1))"

definition setupUnveil_dataDir :: "os \<Rightarrow> string \<Rightarrow> sandbox \<Rightarrow> nat \<Rightarrow> error option \<times> sandbox \<times> nat" where
  "setupUnveil_dataDir sys dataDir s unveilCount =
     (if dataDir \<noteq> [] then
        (case filepath_Abs sys dataDir of
           Inl err \<Rightarrow> (Some (Wrap ''resolving data dir: '' err), s, unveilCount)
         | Inr absDataDir \<Rightarrow>
             (case unix_Unveil sys absDataDir ''rwc'' s of
                (Some err, s') \<Rightarrow>
                  (Some (Wrap (''unveil data dir '' @ absDataDir @ '': '') err), s', unveilCount)
              | (None, s') \<Rightarrow> (None, s', unveilCount + 1)))
      else (None, s, unveilCount))"

definition setupUnveil_workingDir :: "os \<Rightarrow> string \<Rightarrow> sandbox \<Rightarrow> nat \<Rightarrow> error option \<times> sandbox \<times> nat" where
  "setupUnveil_workingDir sys workingDir s unveilCount =
     (if workingDir \<noteq> [] then
        (case filepath_Abs sys workingDir of
           Inl err \<Rightarrow> (Some (Wrap ''resolving working dir: '' err), s, unveilCount)
         | Inr absWorkDir \<Rightarrow>
             (case unix_Unveil sys absWorkDir ''rwcx'' s of
                (Some err, s') \<Rightarrow>
                  (Some (Wrap (''unveil working dir '' @ absWorkDir @ '': '') err), s', unveilCount)
              | (None, s') \<Rightarrow> (None, s', unveilCount + 1)))
      else (None, s, unveilCount))"

text \<open>The pattern of every best-effort reveal: on failure a debug message, and on.\<close>

definition unveil_or_skip ::
  "os \<Rightarrow> string \<Rightarrow> string \<Rightarrow> string \<Rightarrow> (string \<times> string) list \<Rightarrow> sandbox \<Rightarrow> sandbox" where
  "unveil_or_skip sys path perms msg attrs s =
     (case unix_Unveil sys path perms s of
        (Some err, s') \<Rightarrow> slog_Debug msg (attrs @ [(''error'', Error err)]) s'
      | (None, s') \<Rightarrow> s')"

fun xdgPaths_loop :: "os \<Rightarrow> string list \<Rightarrow> sandbox \<Rightarrow> sandbox" where
  "xdgPaths_loop sys [] s = s"
| "xdgPaths_loop sys (xp # rest) s =
     xdgPaths_loop sys rest (unveil_or_skip sys xp ''rwc'' ''unveil xdg path skipped'' [(''path'', xp)] s)"

definition setupUnveil_home :: "os \<Rightarrow> string \<Rightarrow> sandbox \<Rightarrow> sandbox" where
  "setupUnveil_home sys dataDir s =
     (case os_UserHomeDir sys of
        Inl err \<Rightarrow> s
      | Inr homeDir \<Rightarrow>
          if homeDir = [] then s
          else
            (let crushDir = filepath_Join sys [homeDir, ''.crush''];
                 absDataDir = (case filepath_Abs sys dataDir of Inl err \<Rightarrow> [] | Inr a \<Rightarrow> a);
                 s1 = (if absDataDir \<noteq> crushDir
                       then unveil_or_skip sys crushDir ''rwc'' ''unveil home .crush skipped'' [] s
                       else s);
                 xdgPaths = [filepath_Join sys [homeDir, ''.config''],
                             filepath_Join sys [homeDir, ''.local'', ''share'']];
                 s2 = xdgPaths_loop sys xdgPaths s1;
                 s3 = unveil_or_skip sys (filepath_Join sys [homeDir, ''.gitconfig'']) ''r''
                        ''unveil gitconfig skipped'' [] s2;
                 gopath = os_Getenv sys ''GOPATH'';
                 s4 = (if gopath \<noteq> []
                       then unveil_or_skip sys gopath ''rwc'' ''unveil GOPATH skipped'' [(''path'', gopath)] s3
                       else s3);
                 gocache = os_Getenv sys ''GOCACHE'';
                 s5 = (if gocache \<noteq> []
                       then unveil_or_skip sys gocache ''rwc'' ''unveil GOCACHE skipped'' [(''path'', gocache)] s4
                       else s4)
             in s5))"

definition setupUnveil_tmp :: "os \<Rightarrow> sandbox \<Rightarrow> nat \<Rightarrow> sandbox \<times> nat" where
  "setupUnveil_tmp sys s unveilCount =
     (let tmpDir0 = filepath_Join sys [os_TempDir sys, ''crush-'' @ itoa (os_Getuid sys)];
          (tmpDir, s1) =
            (case os_MkdirAll sys tmpDir0 of
               Some err \<Rightarrow>
                 (os_TempDir sys,
                  slog_Debug ''failed to create temp dir'' [(''path'', tmpDir0), (''error'', Error err)] s)
             | None \<Rightarrow> (tmpDir0, s))
      in case unix_Unveil sys tmpDir ''rwc'' s1 of
           (Some err, s2) \<Rightarrow>
             (slog_Debug ''unveil temp dir skipped'' [(''path'', tmpDir), (''error'', Error err)] s2,
              unveilCount)
         | (None, s2) \<Rightarrow> (s2, unveilCount + 1))"

definition setupUnveil :: "os \<Rightarrow> string \<Rightarrow> string \<Rightarrow> sandbox \<Rightarrow> error option \<times> sandbox" where
  "setupUnveil sys dataDir workingDir s =
     (case systemPaths_loop sys systemPaths s 0 of
        (s1, n1) \<Rightarrow>
          (case setupUnveil_dataDir sys dataDir s1 n1 of
             (Some err, s2, n2) \<Rightarrow> (Some err, s2)
           | (None, s2, n2) \<Rightarrow>
               (case setupUnveil_workingDir sys workingDir s2 n2 of
                  (Some err, s3, n3) \<Rightarrow> (Some err, s3)
                | (None, s3, n3) \<Rightarrow>
                    (case setupUnveil_tmp sys (setupUnveil_home sys dataDir s3) n3 of
                       (s4, n4) \<Rightarrow>
                         (None,
                          slog_Debug ''unveil setup complete'' [(''total_paths'', utoa n4)] s4)))))"

definition Init :: "os \<Rightarrow> string \<Rightarrow> string \<Rightarrow> sandbox \<Rightarrow> error option \<times> sandbox" where
  "Init sys dataDir workingDir s =
     (if initialized s then (Some (New ''security already initialized''), s)
      else
        (case setupUnveil sys dataDir workingDir s of
           (Some err, s1) \<Rightarrow> (Some (Wrap ''unveil setup failed: '' err), s1)
         | (None, s1) \<Rightarrow>
             (case unix_UnveilBlock sys s1 of
                (Some err, s2) \<Rightarrow> (Some (Wrap ''unveil lock failed: '' err), s2)
              | (None, s2) \<Rightarrow>
                  (case unix_PledgePromises allPromises s2 of
                     (Some err, s3) \<Rightarrow> (Some (Wrap ''pledge failed: '' err), s3)
                   | (None, s3) \<Rightarrow>
                       (None,
                        slog_Debug ''openbsd security: sandbox active''
                          [(''promises'', allPromises), (''data_dir'', dataDir),
                           (''working_dir'', workingDir)]
                          (s3\<lparr>initialized := True\<rparr>))))))"

definition Shutdown :: "sandbox \<Rightarrow> error option \<times> sandbox" where
  "Shutdown s =
     (if \<not> initialized s then (None, s)
      else
        (case unix_PledgePromises shutdownPromises s of
           (Some err, s1) \<Rightarrow> (Some err, slog_Debug ''pledge shutdown failed'' [(''error'', Error err)] s1)
         | (None, s1) \<Rightarrow> (None, slog_Debug ''openbsd security: shutdown promises active'' [] s1)))"

definition IsInitialized :: "sandbox \<Rightarrow> bool" where
  "IsInitialized s = initialized s"

text \<open>The stubs built on every other platform (\<^verbatim>\<open>//go:build !openbsd\<close>): they read and
  write nothing.\<close>

definition Init_stub :: "string \<Rightarrow> string \<Rightarrow> sandbox \<Rightarrow> error option \<times> sandbox" where
  "Init_stub dataDir workingDir s = (None, s)"

definition Shutdown_stub :: "sandbox \<Rightarrow> error option \<times> sandbox" where
  "Shutdown_stub s = (None, s)"

definition IsInitialized_stub :: "sandbox \<Rightarrow> bool" where
  "IsInitialized_stub s = False"

section \<open>Package security: what the path-grant phase is expected to do\<close>

text \<open>
  The outcome of revealing a mandatory directory (\<open>what\<close> is \<^verbatim>\<open>data\<close> or \<^verbatim>\<open>working\<close>): no
  error when the directory is the empty string (nothing is revealed then), the error of
  \<^verbatim>\<open>filepath.Abs\<close> or of \<^verbatim>\<open>unveil\<close> otherwise, wrapped with the message of the code.
\<close>

definition mandatory_reveal_error :: "os \<Rightarrow> string \<Rightarrow> string \<Rightarrow> string \<Rightarrow> error option" where
  "mandatory_reveal_error sys what dir perms =
     (if dir = [] then None
      else (case filepath_Abs sys dir of
              Inl err \<Rightarrow> Some (Wrap (''resolving '' @ what @ '' dir: '') err)
            | Inr a \<Rightarrow>
                (case unveil_errno sys a perms of
                   Some err \<Rightarrow> Some (Wrap (''unveil '' @ what @ '' dir '' @ a @ '': '') err)
                 | None \<Rightarrow> None)))"

text \<open>
  The best-effort reveals, each with its permissions and with the message and attributes
  logged when it fails: the fixed system paths, the paths under the home directory (when
  there is one), and the temporary directory (the system's own when the per-user one
  cannot be created).
\<close>

type_synonym reveal = "string \<times> string \<times> string \<times> (string \<times> string) list"

definition system_reveals :: "reveal list" where
  "system_reveals = map (\<lambda>(path, perms). (path, perms, ''unveil skipped'', [(''path'', path)])) systemPaths"

definition home_reveals :: "os \<Rightarrow> string \<Rightarrow> reveal list" where
  "home_reveals sys dataDir =
     (case os_UserHomeDir sys of
        Inl err \<Rightarrow> []
      | Inr homeDir \<Rightarrow>
          if homeDir = [] then []
          else
            (if (case filepath_Abs sys dataDir of Inl err \<Rightarrow> [] | Inr a \<Rightarrow> a)
                  \<noteq> filepath_Join sys [homeDir, ''.crush'']
             then [(filepath_Join sys [homeDir, ''.crush''], ''rwc'', ''unveil home .crush skipped'', [])]
             else [])
            @ [(filepath_Join sys [homeDir, ''.config''], ''rwc'', ''unveil xdg path skipped'',
                  [(''path'', filepath_Join sys [homeDir, ''.config''])]),
               (filepath_Join sys [homeDir, ''.local'', ''share''], ''rwc'', ''unveil xdg path skipped'',
                  [(''path'', filepath_Join sys [homeDir, ''.local'', ''share''])]),
               (filepath_Join sys [homeDir, ''.gitconfig''], ''r'', ''unveil gitconfig skipped'', [])]
            @ (if os_Getenv sys ''GOPATH'' \<noteq> []
               then [(os_Getenv sys ''GOPATH'', ''rwc'', ''unveil GOPATH skipped'',
                        [(''path'', os_Getenv sys ''GOPATH'')])]
               else [])
            @ (if os_Getenv sys ''GOCACHE'' \<noteq> []
               then [(os_Getenv sys ''GOCACHE'', ''rwc'', ''unveil GOCACHE skipped'',
                        [(''path'', os_Getenv sys ''GOCACHE'')])]
               else []))"

definition tmp_dir :: "os \<Rightarrow> string" where
  "tmp_dir sys =
     (case os_MkdirAll sys (filepath_Join sys [os_TempDir sys, ''crush-'' @ itoa (os_Getuid sys)]) of
        Some err \<Rightarrow> os_TempDir sys
      | None \<Rightarrow> filepath_Join sys [os_TempDir sys, ''crush-'' @ itoa (os_Getuid sys)])"

definition optional_reveals :: "os \<Rightarrow> string \<Rightarrow> reveal list" where
  "optional_reveals sys dataDir =
     system_reveals @ home_reveals sys dataDir
     @ [(tmp_dir sys, ''rwc'', ''unveil temp dir skipped'', [(''path'', tmp_dir sys)])]"

text \<open>A run of best-effort reveals, in order: each one either extends the reveal list or
  leaves the debug message of its failure.\<close>

fun best_effort :: "os \<Rightarrow> reveal list \<Rightarrow> sandbox \<Rightarrow> sandbox" where
  "best_effort sys [] s = s"
| "best_effort sys ((path, perms, msg, attrs) # rs) s =
     best_effort sys rs (unveil_or_skip sys path perms msg attrs s)"

text \<open>The state \<open>s'\<close> differs from \<open>s\<close> by further reveals and log messages at most: the
  \<^verbatim>\<open>initialized\<close> flag, the lock of the reveal list and the promises are those of \<open>s\<close>.\<close>

definition reveals_only :: "sandbox \<Rightarrow> sandbox \<Rightarrow> bool" where
  "reveals_only s s' =
     (initialized s' = initialized s \<and> unveil_locked s' = unveil_locked s \<and> pledged s' = pledged s
      \<and> set (unveiled s) \<subseteq> set (unveiled s') \<and> set (slog s) \<subseteq> set (slog s'))"

section \<open>A concrete system\<close>

text \<open>
  A Unix system on which the example theorems are evaluated: \<^verbatim>\<open>filepath.Base\<close> as on Unix
  (trailing slashes dropped, then the part after the last slash), \<^verbatim>\<open>filepath.Join\<close> of
  already clean elements, and a file system on which only \<^verbatim>\<open>/data\<close> and \<^verbatim>\<open>/work\<close> can be
  revealed and three scripts can be read.
\<close>

definition unix_Base :: "string \<Rightarrow> string" where
  "unix_Base path =
     (if path = [] then ''.''
      else (let p = rev (dropWhile (\<lambda>c. c = CHR ''/'') (rev path));
                q = rev (takeWhile (\<lambda>c. c \<noteq> CHR ''/'') (rev p))
            in if q = [] then ''/'' else q))"

definition example_files :: "string \<Rightarrow> error + string" where
  "example_files path =
     (if path = ''/work/a.sh'' then Inr (''#!/bin/sh'' @ [CHR 0x0A] @ ''echo a'' @ [CHR 0x0A])
      else if path = ''/work/b.sh'' then Inr (''#!/usr/bin/env bash'' @ [CHR 0x0A] @ ''echo b'' @ [CHR 0x0A])
      else if path = ''/work/c.py'' then Inr (''#!/usr/bin/python3'' @ [CHR 0x0A] @ ''print(1)'' @ [CHR 0x0A])
      else Inl (New ''no such file or directory''))"

definition example_os :: os where
  "example_os =
     \<lparr> GOOS = ''openbsd'',
       os_Getenv = (\<lambda>k. if k = ''GOPATH'' then ''/go'' else if k = ''GOCACHE'' then ''/gocache'' else []),
       os_PathSeparator = CHR ''/'',
       filepath_Base = unix_Base,
       filepath_Join = (\<lambda>elems. Join elems ''/''),
       filepath_SplitList = (\<lambda>p. if p = [] then [] else split_on CHR '':'' p),
       filepath_Abs = Inr,
       os_Open = (\<lambda>p. case example_files p of Inl err \<Rightarrow> Inl err | Inr b \<Rightarrow> Inr (Inr b)),
       os_ReadFile = example_files,
       os_Stat = (\<lambda>p. case example_files p of Inl err \<Rightarrow> Inl err
                                          | Inr b \<Rightarrow> Inr \<lparr> IsDir = False, Mode = 493 \<rparr>),
       os_UserHomeDir = Inr ''/home/u'',
       os_TempDir = ''/tmp'',
       os_Getuid = 1000,
       os_MkdirAll = (\<lambda>p. None),
       unveil_errno = (\<lambda>p perms. if p = ''/data'' \<or> p = ''/work'' then None
                                   else Some (New ''no such file or directory'')),
       unveil_block_errno = None \<rparr>"

definition fresh_sandbox :: sandbox where
  "fresh_sandbox =
     \<lparr> initialized = False, unveiled = [], unveil_locked = False, pledged = None, slog = [] \<rparr>"

text \<open>
  An interpreter that parses every script to itself. Its runner is the list of positional
  parameters that \<^verbatim>\<open>interp.Params\<close> leaves: of the shell options it knows \<^verbatim>\<open>-e\<close> only, it
  drops a \<^verbatim>\<open>--\<close> and stops there, and it refuses any other leading token that starts with
  \<^verbatim>\<open>-\<close>. A run of the script \<^verbatim>\<open>exit 3\<close> ends with an error, a run of \<^verbatim>\<open>test $# -eq 1\<close>
  succeeds with exactly one positional parameter, and any other script succeeds.
\<close>

fun example_Params :: "string list \<Rightarrow> error + string list" where
  "example_Params [] = Inr []"
| "example_Params (p # ps) =
     (if p = ''--'' then Inr ps
      else if p = ''-e'' then example_Params ps
      else if is_flag_token p then Inl (New (''invalid option: '' @ [CHR 0x22] @ p @ [CHR 0x22]))
      else Inr (p # ps))"

definition example_interp :: "(string, string list) interp" where
  "example_interp =
     \<lparr> syntax_Parse = Inr,
       interp_New = (\<lambda>env' dir ps. example_Params ps),
       runner_Run = (\<lambda>positional line.
          if line = ''exit 3'' then Some (New ''exit status 3'')
          else if line = ''test $# -eq 1''
            then (if length positional = 1 then None else Some (New ''exit status 1''))
          else None),
       coreutils_ExecHandler = (\<lambda>next. next) \<rparr>"

definition example_native :: ExecHandlerFunc where
  "example_native ctx args = Some (New ''native spawn'')"

section \<open>Properties of the command blocklist\<close>

subsection \<open>The partition of the tokens\<close>

lemma HasPrefix_dash: "HasPrefix t ''-'' = is_flag_token t"
  by (cases t) (auto simp: HasPrefix_def is_flag_token_def)

lemma IndexByte_takeWhile:
  "IndexByte s b = (if b \<in> set s then int (length (takeWhile (\<lambda>c. c \<noteq> b) s)) else - 1)"
  by (induction s) (auto simp: Let_def)

lemma takeWhile_absent: "b \<notin> set t \<Longrightarrow> takeWhile (\<lambda>c. c \<noteq> b) t = t"
  by (induction t) auto

lemma flag_of_identity: "flag_of t = flag_identity t"
  by (simp add: flag_of_def flag_identity_def IndexByte_takeWhile takeWhile_absent
      takeWhile_eq_take [symmetric])

lemma splitArgsFlags_loop_eq:
  "splitArgsFlags_loop parts as fs =
     (as @ filter (\<lambda>t. \<not> is_flag_token t) parts, fs @ map flag_identity (filter is_flag_token parts))"
  by (induction parts arbitrary: as fs) (simp_all add: HasPrefix_dash flag_of_identity)

lemma splitArgsFlags_eq:
  "splitArgsFlags parts =
     (filter (\<lambda>t. \<not> is_flag_token t) parts, map flag_identity (filter is_flag_token parts))"
  by (simp add: splitArgsFlags_def splitArgsFlags_loop_eq)

lemma IsSubset_set: "length a \<le> length b \<Longrightarrow> IsSubset a b = (set a \<subseteq> set b)"
  by (auto simp: IsSubset_def list_all_iff)

lemma ArgumentsBlocker_Cons:
  "ArgumentsBlocker cmd args flags (p0 # rest) =
     (p0 = cmd
      \<and> length args \<le> length (filter (\<lambda>t. \<not> is_flag_token t) rest)
      \<and> length flags \<le> length (filter is_flag_token rest)
      \<and> take (length args) (filter (\<lambda>t. \<not> is_flag_token t) rest) = args
      \<and> set flags \<subseteq> set (map flag_identity (filter is_flag_token rest)))"
  by (auto simp: ArgumentsBlocker_def splitArgsFlags_eq IsSubset_set Let_def)

lemma bannedSet_loop_dom: "dom (bannedSet_loop cmds m) = dom m \<union> set cmds"
  by (induction cmds arbitrary: m) auto

lemma CommandsBlocker_Cons: "CommandsBlocker cmds (a0 # rest) = (a0 \<in> set cmds)"
proof -
  have "(bannedSet_loop cmds Map.empty a0 \<noteq> None) = (a0 \<in> dom (bannedSet_loop cmds Map.empty))"
    by (simp add: dom_def)
  then show ?thesis by (simp add: CommandsBlocker_def bannedSet_loop_dom)
qed

text \<open>The exact-name blocker of the specification's example: with the banned set
  \<^verbatim>\<open>{curl, wget}\<close> the line \<^verbatim>\<open>curl http://x\<close> is blocked and \<^verbatim>\<open>cat file\<close> is not.\<close>

lemma CommandsBlocker_example:
  "CommandsBlocker [''curl'', ''wget''] [''curl'', ''http://x'']
   \<and> \<not> CommandsBlocker [''curl'', ''wget''] [''cat'', ''file'']"
  by (simp add: CommandsBlocker_Cons)

subsection \<open>The subcommand blocker\<close>

text \<open>
  Claim C7, as the code has it. \<^verbatim>\<open>ArgumentsBlocker(cmd, args, flags)\<close> blocks a token list
  exactly when its first token is \<open>cmd\<close>, the first \<open>length args\<close> non-flag tokens after
  it are \<open>args\<close> in order, every required flag is the identity of some flag token of the
  line, and the line has at least as many flag tokens as there are required flags (the
  guard \<^verbatim>\<open>len(flagParts) < len(flags)\<close>). The three lines of the specification's example
  are decided as it says.
\<close>

theorem ArgumentsBlocker_blocks_iff:
  "(ArgumentsBlocker cmd args flags parts \<longleftrightarrow>
      ArgumentsBlocker_spec cmd args flags parts
      \<and> length flags \<le> length (filter is_flag_token (tl parts)))
   \<and> ArgumentsBlocker ''git'' [''push''] [''--force''] [''git'', ''push'', ''--force'', ''origin'']
   \<and> \<not> ArgumentsBlocker ''git'' [''push''] [''--force''] [''git'', ''push'', ''origin'']
   \<and> \<not> ArgumentsBlocker ''git'' [''push''] [''--force''] [''git'', ''pull'']"
proof -
  have general: "ArgumentsBlocker cmd args flags parts \<longleftrightarrow>
      ArgumentsBlocker_spec cmd args flags parts
      \<and> length flags \<le> length (filter is_flag_token (tl parts))"
  proof (cases parts)
    case Nil
    then show ?thesis by (simp add: ArgumentsBlocker_def ArgumentsBlocker_spec_def)
  next
    case (Cons p0 rest)
    then show ?thesis by (auto simp: ArgumentsBlocker_Cons ArgumentsBlocker_spec_def)
  qed
  have e1: "ArgumentsBlocker ''git'' [''push''] [''--force''] [''git'', ''push'', ''--force'', ''origin'']"
    by (simp add: ArgumentsBlocker_Cons is_flag_token_def flag_identity_def)
  have e2: "\<not> ArgumentsBlocker ''git'' [''push''] [''--force''] [''git'', ''push'', ''origin'']"
    by (simp add: ArgumentsBlocker_Cons is_flag_token_def flag_identity_def)
  have e3: "\<not> ArgumentsBlocker ''git'' [''push''] [''--force''] [''git'', ''pull'']"
    by (simp add: ArgumentsBlocker_Cons is_flag_token_def flag_identity_def)
  from general e1 e2 e3 show ?thesis by blast
qed

text \<open>
  Claim C7, as stated, fails when a required flag is listed twice: the line
  \<^verbatim>\<open>git -f\<close> has the command, no required argument is missing and the required flag
  \<^verbatim>\<open>-f\<close> is among its flag tokens, yet \<^verbatim>\<open>ArgumentsBlocker("git", [], ["-f", "-f"])\<close>
  does not block it, because the line has one flag token and two are required.
\<close>

theorem ArgumentsBlocker_duplicate_flags_counterexample:
  "ArgumentsBlocker_spec ''git'' [] [''-f'', ''-f''] [''git'', ''-f'']
   \<and> \<not> ArgumentsBlocker ''git'' [] [''-f'', ''-f''] [''git'', ''-f'']"
  by (simp add: ArgumentsBlocker_Cons ArgumentsBlocker_spec_def is_flag_token_def flag_identity_def)

text \<open>When no required flag is listed twice the count of flag tokens follows from the
  subset condition, and the blocker is the specification's reading.\<close>

lemma ArgumentsBlocker_distinct_flags:
  assumes "distinct flags"
  shows "ArgumentsBlocker cmd args flags parts = ArgumentsBlocker_spec cmd args flags parts"
proof (cases parts)
  case Nil
  then show ?thesis by (simp add: ArgumentsBlocker_def ArgumentsBlocker_spec_def)
next
  case (Cons p0 rest)
  have "length flags \<le> length (filter is_flag_token rest)"
    if sub: "set flags \<subseteq> set (map flag_identity (filter is_flag_token rest))"
  proof -
    have "length flags = card (set flags)"
      using assms by (simp add: distinct_card)
    also have "\<dots> \<le> card (set (map flag_identity (filter is_flag_token rest)))"
      using sub by (intro card_mono) simp_all
    also have "\<dots> \<le> length (map flag_identity (filter is_flag_token rest))"
      by (rule card_length)
    finally show ?thesis by simp
  qed
  with Cons show ?thesis
    by (auto simp: ArgumentsBlocker_Cons ArgumentsBlocker_spec_def)
qed

subsection \<open>The empty command line\<close>

text \<open>
  Claim C10. For the empty token list the predicate built by \<^verbatim>\<open>CommandsBlocker\<close> answers
  false, the predicate built by \<^verbatim>\<open>ArgumentsBlocker\<close> answers false, and the block handler
  hands the empty argv to the next handler, whatever the session's block functions are.
\<close>

theorem empty_argv_never_blocked:
  "CommandsBlocker cmds [] = False
   \<and> ArgumentsBlocker cmd args flags [] = False
   \<and> blockHandler s next ctx [] = next ctx []"
  by (simp add: CommandsBlocker_def ArgumentsBlocker_def blockHandler_def)

section \<open>Properties of the exec handlers\<close>

subsection \<open>Script detection\<close>

text \<open>A file whose first bytes are \<^verbatim>\<open>#!/bin/sh\<close> is a shell script for \<^verbatim>\<open>isShellScript\<close>,
  whatever follows; a file that holds the line \<^verbatim>\<open>#!/usr/bin/env bash\<close> and nothing else is
  not, on any system.\<close>

lemma isShellScript_bin_sh:
  assumes "os_Open sys path = Inr (Inr (''#!/bin/sh'' @ rest))"
  shows "isShellScript sys path"
  using assms by (simp add: isShellScript_def HasPrefix_def)

lemma isShellScript_env_bash_missed:
  assumes "os_Open sys path = Inr (Inr (''#!/usr/bin/env bash'' @ [CHR 0x0A]))"
  shows "\<not> isShellScript sys path"
  using assms by (simp add: isShellScript_def HasPrefix_def)

text \<open>The header is searched as a whole, not its first line only: a Python script that
  names a shell path within its first 128 bytes is taken for a shell script.\<close>

lemma isShellScript_searches_whole_header:
  assumes "os_Open sys path =
     Inr (Inr (''#!/usr/bin/python3'' @ [CHR 0x0A] @ ''# wraps /bin/sh'' @ [CHR 0x0A]))"
  shows "isShellScript sys path"
  using assms by (simp add: isShellScript_def HasPrefix_def)

text \<open>
  Claim C2, evaluated on the example system. The file \<^verbatim>\<open>/work/a.sh\<close> starts with
  \<^verbatim>\<open>#!/bin/sh\<close> and is classified as a shell script; \<^verbatim>\<open>/work/c.py\<close> starts with
  \<^verbatim>\<open>#!/usr/bin/python3\<close> and is not; \<^verbatim>\<open>/work/b.sh\<close> starts with
  \<^verbatim>\<open>#!/usr/bin/env bash\<close> and is not classified as a shell script either: the header is
  searched for \<^verbatim>\<open>env bash\<close> after a space, and in this shebang a slash stands before it.
\<close>

theorem isShellScript_examples:
  "isShellScript example_os ''/work/a.sh''
   \<and> os_Open example_os ''/work/b.sh'' = Inr (Inr (''#!/usr/bin/env bash'' @ [CHR 0x0A] @ ''echo b'' @ [CHR 0x0A]))
   \<and> \<not> isShellScript example_os ''/work/b.sh''
   \<and> \<not> isShellScript example_os ''/work/c.py''"
  by (simp add: isShellScript_def example_os_def example_files_def HasPrefix_def)

subsection \<open>Shell delegation\<close>

lemma sh_scan_loop_skips_flags:
  "\<forall>t\<in>set fl. HasPrefix t ''-'' \<and> t \<noteq> ''-c'' \<Longrightarrow> sh_scan_loop (fl @ rest) = sh_scan_loop rest"
  by (induction fl) simp_all

lemma not_flag_not_c: "\<not> HasPrefix f ''-'' \<Longrightarrow> f \<noteq> ''-c''"
  by (auto simp: HasPrefix_def)

text \<open>Every list of tokens after the command name has one of four shapes: skipped
  tokens only; skipped tokens and a final \<^verbatim>\<open>-c\<close>; skipped tokens, \<^verbatim>\<open>-c\<close>, a script text and
  parameters; skipped tokens, a token that is not a flag, and what follows it.\<close>

lemma sh_tokens_cases:
  "\<exists>fl. (\<forall>t\<in>set fl. HasPrefix t ''-'' \<and> t \<noteq> ''-c'')
     \<and> (toks = fl
        \<or> toks = fl @ [''-c'']
        \<or> (\<exists>script ps. toks = fl @ ''-c'' # script # ps)
        \<or> (\<exists>f rest. \<not> HasPrefix f ''-'' \<and> toks = fl @ f # rest))"
proof -
  let ?skip = "\<lambda>t. HasPrefix t ''-'' \<and> t \<noteq> ''-c''"
  let ?fl = "takeWhile ?skip toks"
  have skipped: "\<forall>t\<in>set ?fl. ?skip t"
    by (auto dest: set_takeWhileD)
  have split: "toks = ?fl @ dropWhile ?skip toks"
    by simp
  show ?thesis
  proof (cases "dropWhile ?skip toks")
    case Nil
    with split have "toks = ?fl" by simp
    with skipped show ?thesis by blast
  next
    case (Cons r rs)
    then have stop: "\<not> ?skip r"
      using hd_dropWhile [of ?skip toks] by auto
    show ?thesis
    proof (cases "r = ''-c''")
      case True
      show ?thesis
      proof (cases rs)
        case Nil
        with split Cons True have "toks = ?fl @ [''-c'']" by simp
        with skipped show ?thesis by blast
      next
        case (Cons script ps)
        with split \<open>dropWhile ?skip toks = r # rs\<close> True
        have "toks = ?fl @ ''-c'' # script # ps" by simp
        with skipped show ?thesis by blast
      qed
    next
      case False
      with stop have "\<not> HasPrefix r ''-''" by simp
      moreover from split Cons have "toks = ?fl @ r # rs" by simp
      ultimately show ?thesis using skipped by blast
    qed
  qed
qed

text \<open>
  Claim C6, as the code has it. For a command whose base name is \<^verbatim>\<open>sh\<close> or \<^verbatim>\<open>bash\<close>, let
  \<open>fl\<close> be the tokens skipped by the scan (they start with \<^verbatim>\<open>-\<close> and are not \<^verbatim>\<open>-c\<close>).
  When the next token is \<^verbatim>\<open>-c\<close>, the token after it is the script text and the rest are
  the parameters: a text that is not empty is parsed, a runner is built with the handler's
  environment and directory and with exactly these parameters, and the text is run by it;
  when \<^verbatim>\<open>-c\<close> is the last token the handler fails with \<^verbatim>\<open>-c requires an argument\<close>. When
  the next token does not start with \<^verbatim>\<open>-\<close> it is the script file, and the parameters are
  this token and all that follow: a file name that is not empty is read, and its content
  is run in the same way. An empty script text and an empty file name count as absent:
  with them, as with nothing but skipped tokens, the handler fails with
  \<^verbatim>\<open>interactive mode not supported\<close>. The next handler (the native spawn) is called in
  none of these cases.
\<close>

theorem shHandler_argument_scan:
  assumes base: "filepath_Base sys a0 = ''sh'' \<or> filepath_Base sys a0 = ''bash''"
      and flags: "\<forall>t\<in>set fl. HasPrefix t ''-'' \<and> t \<noteq> ''-c''"
      and nonflag: "\<not> HasPrefix f ''-''"
  shows "sh_scan_loop (fl @ ''-c'' # script # ps) = Scanned [] script ps
     \<and> shHandler sys ip nxt ctx (a0 # fl @ ''-c'' # script # ps) =
         (if script \<noteq> [] then
            (case syntax_Parse ip script of
               Inl err \<Rightarrow> Some (Wrap ''could not parse script: '' err)
             | Inr line \<Rightarrow>
                 (case interp_New ip (hc_Env ctx) (hc_Dir ctx) ps of
                    Inl err \<Rightarrow> Some (Wrap ''could not run command: '' err)
                  | Inr runner \<Rightarrow> runner_Run ip runner line))
          else Some (New (filepath_Base sys a0 @ '': interactive mode not supported'')))
     \<and> shHandler sys ip nxt ctx (a0 # fl @ [''-c'']) =
         Some (New (filepath_Base sys a0 @ '': -c requires an argument''))
     \<and> sh_scan_loop (fl @ f # rest) = Scanned f [] (f # rest)
     \<and> shHandler sys ip nxt ctx (a0 # fl @ f # rest) =
         (if f \<noteq> [] then
            (case os_ReadFile sys f of
               Inl err \<Rightarrow> Some err
             | Inr content \<Rightarrow>
                 (case syntax_Parse ip content of
                    Inl err \<Rightarrow> Some (Wrap ''could not parse script: '' err)
                  | Inr line \<Rightarrow>
                      (case interp_New ip (hc_Env ctx) (hc_Dir ctx) (f # rest) of
                         Inl err \<Rightarrow> Some (Wrap ''could not run command: '' err)
                       | Inr runner \<Rightarrow> runner_Run ip runner line)))
          else Some (New (filepath_Base sys a0 @ '': interactive mode not supported'')))
     \<and> shHandler sys ip nxt ctx (a0 # fl) =
         Some (New (filepath_Base sys a0 @ '': interactive mode not supported''))"
proof -
  have inline: "sh_scan_loop (fl @ ''-c'' # script # ps) = Scanned [] script ps"
    using flags by (simp add: sh_scan_loop_skips_flags)
  have last: "sh_scan_loop (fl @ [''-c'']) = MissingScript"
    using flags by (simp add: sh_scan_loop_skips_flags)
  have script: "sh_scan_loop (fl @ f # rest) = Scanned f [] (f # rest)"
    using flags nonflag not_flag_not_c [OF nonflag] by (simp add: sh_scan_loop_skips_flags)
  have bare: "sh_scan_loop fl = Scanned [] [] []"
    using sh_scan_loop_skips_flags [OF flags, of "[]"] by simp
  show ?thesis
    using base inline last script bare
    by (auto simp: shHandler_def runScript_def Let_def split: sum.splits)
qed

theorem shHandler_argument_scan_witness:
  "shHandler example_os example_interp example_native \<lparr>hc_Env = [], hc_Dir = ''/work''\<rparr>
       [''/bin/sh'', ''-e'', ''-c'', ''exit 3'', ''x''] = Some (New ''exit status 3'')
   \<and> shHandler example_os example_interp example_native \<lparr>hc_Env = [], hc_Dir = ''/work''\<rparr>
       [''/bin/sh'', ''-e'', ''-c'', ''test $# -eq 1'', ''x''] = None
   \<and> shHandler example_os example_interp example_native \<lparr>hc_Env = [], hc_Dir = ''/work''\<rparr>
       [''/bin/sh'', ''-e'', ''-c'', ''test $# -eq 1'', ''x'', ''y''] = Some (New ''exit status 1'')
   \<and> shHandler example_os example_interp example_native \<lparr>hc_Env = [], hc_Dir = ''/work''\<rparr>
       [''/bin/sh'', ''-e'', ''-c'', ''exit 3'', ''-z''] =
         Some (Wrap ''could not run command: '' (New (''invalid option: '' @ [CHR 0x22] @ ''-z'' @ [CHR 0x22])))
   \<and> shHandler example_os example_interp example_native \<lparr>hc_Env = [], hc_Dir = ''/work''\<rparr>
       [''/bin/sh'', ''-e'', ''-c''] = Some (New ''sh: -c requires an argument'')
   \<and> shHandler example_os example_interp example_native \<lparr>hc_Env = [], hc_Dir = ''/work''\<rparr>
       [''/bin/sh'', ''-e'', ''/work/a.sh'', ''y''] = None
   \<and> shHandler example_os example_interp example_native \<lparr>hc_Env = [], hc_Dir = ''/work''\<rparr>
       [''/bin/sh'', ''-e''] = Some (New ''sh: interactive mode not supported'')"
proof -
  let ?ctx = "\<lparr>hc_Env = [], hc_Dir = ''/work''\<rparr>"
  have base: "filepath_Base example_os ''/bin/sh'' = ''sh'' \<or> filepath_Base example_os ''/bin/sh'' = ''bash''"
    by (simp add: example_os_def unix_Base_def)
  have flags: "\<forall>t\<in>set [''-e'']. HasPrefix t ''-'' \<and> t \<noteq> ''-c''"
    by (simp add: HasPrefix_def)
  have nonflag: "\<not> HasPrefix ''/work/a.sh'' ''-''"
    by (simp add: HasPrefix_def)
  have b: "filepath_Base example_os ''/bin/sh'' = ''sh''"
    by (simp add: example_os_def unix_Base_def)
  have r: "os_ReadFile example_os ''/work/a.sh'' = Inr (''#!/bin/sh'' @ [CHR 0x0A] @ ''echo a'' @ [CHR 0x0A])"
    by (simp add: example_os_def example_files_def)
  have parse: "syntax_Parse example_interp s = Inr s" for s
    by (simp add: example_interp_def)
  have new: "interp_New example_interp e d ps = example_Params ps" for e d ps
    by (simp add: example_interp_def)
  have run: "runner_Run example_interp positional line =
      (if line = ''exit 3'' then Some (New ''exit status 3'')
       else if line = ''test $# -eq 1''
         then (if length positional = 1 then None else Some (New ''exit status 1''))
       else None)" for positional line
    by (simp add: example_interp_def)
  note scan = shHandler_argument_scan [OF base flags nonflag,
      where ip = example_interp and nxt = example_native and ctx = ?ctx and rest = "[''y'']"]
  have one: "shHandler example_os example_interp example_native ?ctx
       [''/bin/sh'', ''-e'', ''-c'', ''exit 3'', ''x''] = Some (New ''exit status 3'')"
    using scan [where script = "''exit 3''" and ps = "[''x'']"]
    by (simp add: parse new run is_flag_token_def)
  have two: "shHandler example_os example_interp example_native ?ctx
       [''/bin/sh'', ''-e'', ''-c'', ''test $# -eq 1'', ''x''] = None"
    using scan [where script = "''test $# -eq 1''" and ps = "[''x'']"]
    by (simp add: parse new run is_flag_token_def)
  have three: "shHandler example_os example_interp example_native ?ctx
       [''/bin/sh'', ''-e'', ''-c'', ''test $# -eq 1'', ''x'', ''y''] = Some (New ''exit status 1'')"
    using scan [where script = "''test $# -eq 1''" and ps = "[''x'', ''y'']"]
    by (simp add: parse new run is_flag_token_def)
  have four: "shHandler example_os example_interp example_native ?ctx
       [''/bin/sh'', ''-e'', ''-c'', ''exit 3'', ''-z''] =
         Some (Wrap ''could not run command: '' (New (''invalid option: '' @ [CHR 0x22] @ ''-z'' @ [CHR 0x22])))"
    using scan [where script = "''exit 3''" and ps = "[''-z'']"]
    by (simp add: parse new run is_flag_token_def)
  have others: "shHandler example_os example_interp example_native ?ctx
       [''/bin/sh'', ''-e'', ''-c''] = Some (New ''sh: -c requires an argument'')
     \<and> shHandler example_os example_interp example_native ?ctx
       [''/bin/sh'', ''-e'', ''/work/a.sh'', ''y''] = None
     \<and> shHandler example_os example_interp example_native ?ctx
       [''/bin/sh'', ''-e''] = Some (New ''sh: interactive mode not supported'')"
    using scan [where script = "''exit 3''" and ps = "[]"]
    by (simp add: b r parse new run is_flag_token_def)
  from one two three four others show ?thesis by simp
qed

text \<open>
  Claim C6, as stated, fails when the script text or the file name is the empty string.
  In \<^verbatim>\<open>sh -c ""\<close> the \<^verbatim>\<open>-c\<close> token is followed by a token, which the scan takes as the
  script text, and running the empty text would succeed; yet the handler answers with the
  interactive-mode error that the claim keeps for a command line with neither a \<^verbatim>\<open>-c\<close>
  token nor a script file. The same happens in \<^verbatim>\<open>bash "" x\<close>, whose first token after the
  command is not a flag.
\<close>

theorem shHandler_empty_script_counterexample:
  "sh_scan_loop [''-c'', []] = Scanned [] [] []
   \<and> runScript example_interp [] [] [] ''/work'' = None
   \<and> shHandler example_os example_interp example_native \<lparr>hc_Env = [], hc_Dir = ''/work''\<rparr>
       [''sh'', ''-c'', []] = Some (New ''sh: interactive mode not supported'')
   \<and> sh_scan_loop [[], ''x''] = Scanned [] [] [[], ''x'']
   \<and> shHandler example_os example_interp example_native \<lparr>hc_Env = [], hc_Dir = ''/work''\<rparr>
       [''bash'', [], ''x''] = Some (New ''bash: interactive mode not supported'')"
  by (simp add: shHandler_def runScript_def example_interp_def example_os_def unix_Base_def
      HasPrefix_def)

subsection \<open>In-process execution mode\<close>

lemma ParseBool_empty: "\<exists>err. ParseBool [] = Inl err"
  by (simp add: ParseBool_def)

text \<open>
  Claim C8, as the code has it. The mode is the value of \<^verbatim>\<open>CRUSH_CORE_UTILS\<close> when
  \<^verbatim>\<open>strconv.ParseBool\<close> accepts it; when the variable is unset (empty) or not a boolean,
  the mode is enabled exactly on Windows and on OpenBSD; and when the mode is disabled the
  handler list is the block handler alone, so a command the block handler lets through
  goes to the native spawn.
\<close>

theorem useGoCoreUtils_policy:
  "(ParseBool (os_Getenv sys ''CRUSH_CORE_UTILS'') = Inr v \<longrightarrow> useGoCoreUtils sys = v)
   \<and> (ParseBool (os_Getenv sys ''CRUSH_CORE_UTILS'') = Inl err \<longrightarrow>
        useGoCoreUtils sys = (GOOS sys = ''windows'' \<or> GOOS sys = ''openbsd''))
   \<and> (os_Getenv sys ''CRUSH_CORE_UTILS'' = [] \<longrightarrow>
        useGoCoreUtils sys = (GOOS sys = ''windows'' \<or> GOOS sys = ''openbsd''))
   \<and> (\<not> useGoCoreUtils sys \<longrightarrow>
        execHandlers sys ip s = [blockHandler s]
        \<and> apply_middlewares (execHandlers sys ip s) native = blockHandler s native)"
  using ParseBool_empty
  by (auto simp: useGoCoreUtils_def execHandlers_def apply_middlewares_def)

theorem useGoCoreUtils_policy_witness:
  "useGoCoreUtils (example_os\<lparr>os_Getenv := (\<lambda>k. ''false'')\<rparr>) = False
   \<and> useGoCoreUtils (example_os\<lparr>os_Getenv := (\<lambda>k. ''1''), GOOS := ''linux''\<rparr>) = True
   \<and> useGoCoreUtils (example_os\<lparr>os_Getenv := (\<lambda>k. ''maybe'')\<rparr>) = True
   \<and> useGoCoreUtils (example_os\<lparr>os_Getenv := (\<lambda>k. []), GOOS := ''linux''\<rparr>) = False
   \<and> apply_middlewares
        (execHandlers (example_os\<lparr>os_Getenv := (\<lambda>k. ''false'')\<rparr>) example_interp
           \<lparr>env = [], cwd = ''/work'', blockFuncs = [CommandsBlocker [''curl'']]\<rparr>)
        example_native \<lparr>hc_Env = [], hc_Dir = ''/work''\<rparr> [''sh'', ''-c'', ''ls'']
      = Some (New ''native spawn'')"
proof -
  let ?off = "example_os\<lparr>os_Getenv := (\<lambda>k. ''false'')\<rparr>"
  let ?on = "example_os\<lparr>os_Getenv := (\<lambda>k. ''1''), GOOS := ''linux''\<rparr>"
  let ?bad = "example_os\<lparr>os_Getenv := (\<lambda>k. ''maybe'')\<rparr>"
  let ?unset = "example_os\<lparr>os_Getenv := (\<lambda>k. []), GOOS := ''linux''\<rparr>"
  let ?s = "\<lparr>env = [], cwd = ''/work'', blockFuncs = [CommandsBlocker [''curl'']]\<rparr>"
  have p1: "ParseBool (os_Getenv ?off ''CRUSH_CORE_UTILS'') = Inr False"
    by (simp add: ParseBool_def)
  have p2: "ParseBool (os_Getenv ?on ''CRUSH_CORE_UTILS'') = Inr True"
    by (simp add: ParseBool_def)
  have p3: "ParseBool (os_Getenv ?bad ''CRUSH_CORE_UTILS'') =
      Inl (New (''strconv.ParseBool: parsing '' @ [CHR 0x22] @ ''maybe'' @ [CHR 0x22] @ '': invalid syntax''))"
    by (simp add: ParseBool_def)
  have p4: "os_Getenv ?unset ''CRUSH_CORE_UTILS'' = []"
    by simp
  have g3: "GOOS ?bad = ''openbsd''" by (simp add: example_os_def)
  have g4: "GOOS ?unset = ''linux''" by simp
  have off: "useGoCoreUtils ?off = False"
    using useGoCoreUtils_policy [where sys = ?off and v = False and ip = example_interp] p1 by blast
  have on: "useGoCoreUtils ?on = True"
    using useGoCoreUtils_policy [where sys = ?on and v = True and ip = example_interp] p2 by blast
  have bad: "useGoCoreUtils ?bad = True"
    using useGoCoreUtils_policy [where sys = ?bad and ip = example_interp
        and err = "New (''strconv.ParseBool: parsing '' @ [CHR 0x22] @ ''maybe'' @ [CHR 0x22] @ '': invalid syntax'')"] p3 g3
    by blast
  have unset: "useGoCoreUtils ?unset = False"
    using useGoCoreUtils_policy [where sys = ?unset and ip = example_interp] p4 g4 by simp
  have chain: "apply_middlewares (execHandlers ?off example_interp ?s) example_native = blockHandler ?s example_native"
    using useGoCoreUtils_policy [where sys = ?off and ip = example_interp and s = ?s
        and native = example_native] off by blast
  have run: "blockHandler ?s example_native \<lparr>hc_Env = [], hc_Dir = ''/work''\<rparr> [''sh'', ''-c'', ''ls'']
      = Some (New ''native spawn'')"
    by (simp add: blockHandler_def CommandsBlocker_def example_native_def)
  from off on bad unset chain run show ?thesis by simp
qed

text \<open>
  Claim C8, as stated, fails on Windows: with \<^verbatim>\<open>CRUSH_CORE_UTILS\<close> unset the mode is
  enabled there, and Windows is not a platform on which a file-system restriction exists
  that a native child would fail to inherit.
\<close>

theorem useGoCoreUtils_windows_counterexample:
  "os_Getenv (example_os\<lparr>GOOS := ''windows''\<rparr>) ''CRUSH_CORE_UTILS'' = []
   \<and> useGoCoreUtils (example_os\<lparr>GOOS := ''windows''\<rparr>)
   \<and> \<not> restriction_not_inherited (GOOS (example_os\<lparr>GOOS := ''windows''\<rparr>))"
  by (simp add: useGoCoreUtils_def ParseBool_def example_os_def restriction_not_inherited_def)

section \<open>Properties of the sandbox\<close>

subsection \<open>Reveals and log messages leave the restrictions alone\<close>

lemma slog_Debug_fields [simp]:
  "initialized (slog_Debug msg attrs s) = initialized s"
  "unveil_locked (slog_Debug msg attrs s) = unveil_locked s"
  "pledged (slog_Debug msg attrs s) = pledged s"
  "unveiled (slog_Debug msg attrs s) = unveiled s"
  "slog (slog_Debug msg attrs s) = slog s @ [(msg, attrs)]"
  by (simp_all add: slog_Debug_def)

lemma unix_Unveil_eq:
  "unix_Unveil sys path perms s =
     (unveil_errno sys path perms,
      if unveil_errno sys path perms = None then s\<lparr>unveiled := unveiled s @ [(path, perms)]\<rparr> else s)"
  by (simp add: unix_Unveil_def split: option.splits)

lemma unveil_or_skip_eq:
  "unveil_or_skip sys path perms msg attrs s =
     (case unveil_errno sys path perms of
        Some err \<Rightarrow> slog_Debug msg (attrs @ [(''error'', Error err)]) s
      | None \<Rightarrow> s\<lparr>unveiled := unveiled s @ [(path, perms)]\<rparr>)"
  by (simp add: unveil_or_skip_def unix_Unveil_eq split: option.splits)

lemma reveals_only_refl [simp]: "reveals_only s s"
  by (simp add: reveals_only_def)

lemma reveals_only_trans: "reveals_only s t \<Longrightarrow> reveals_only t u \<Longrightarrow> reveals_only s u"
  by (auto simp: reveals_only_def)

lemma reveals_only_slog_Debug: "reveals_only s (slog_Debug msg attrs s)"
  by (auto simp: reveals_only_def)

lemma reveals_only_unveiled: "reveals_only s (s\<lparr>unveiled := unveiled s @ [entry]\<rparr>)"
  by (auto simp: reveals_only_def)

lemma reveals_only_unveil_or_skip: "reveals_only s (unveil_or_skip sys path perms msg attrs s)"
  by (simp add: unveil_or_skip_eq reveals_only_slog_Debug reveals_only_unveiled split: option.splits)

lemma reveals_only_best_effort: "reveals_only s (best_effort sys rs s)"
proof (induction rs arbitrary: s)
  case Nil
  show ?case by simp
next
  case (Cons r rs)
  obtain path perms msg attrs where r: "r = (path, perms, msg, attrs)"
    by (cases r) auto
  show ?case
    using reveals_only_unveil_or_skip Cons.IH unfolding r best_effort.simps
    by (rule reveals_only_trans)
qed

lemma best_effort_append: "best_effort sys (rs @ rs') s = best_effort sys rs' (best_effort sys rs s)"
  by (induction rs arbitrary: s) auto

text \<open>The trace a reveal leaves in a state: revealed, or the message of its failure.\<close>

lemma unveil_or_skip_settled:
  "(case unveil_errno sys path perms of
      Some err \<Rightarrow> (msg, attrs @ [(''error'', Error err)]) \<in> set (slog (unveil_or_skip sys path perms msg attrs s))
    | None \<Rightarrow> (path, perms) \<in> set (unveiled (unveil_or_skip sys path perms msg attrs s)))"
  by (simp add: unveil_or_skip_eq split: option.splits)

lemma settled_mono:
  assumes "reveals_only s s'"
    and "(case unveil_errno sys path perms of
            Some err \<Rightarrow> (msg, attrs @ [(''error'', Error err)]) \<in> set (slog s)
          | None \<Rightarrow> (path, perms) \<in> set (unveiled s))"
  shows "(case unveil_errno sys path perms of
            Some err \<Rightarrow> (msg, attrs @ [(''error'', Error err)]) \<in> set (slog s')
          | None \<Rightarrow> (path, perms) \<in> set (unveiled s'))"
  using assms by (auto simp: reveals_only_def split: option.splits)

lemma best_effort_settled:
  assumes "(path, perms, msg, attrs) \<in> set rs"
  shows "(case unveil_errno sys path perms of
            Some err \<Rightarrow> (msg, attrs @ [(''error'', Error err)]) \<in> set (slog (best_effort sys rs s))
          | None \<Rightarrow> (path, perms) \<in> set (unveiled (best_effort sys rs s)))"
  using assms
proof (induction rs arbitrary: s)
  case Nil
  then show ?case by simp
next
  case (Cons r rs)
  show ?case
  proof (cases "r = (path, perms, msg, attrs)")
    case True
    show ?thesis
      unfolding True best_effort.simps
      by (rule settled_mono [OF reveals_only_best_effort unveil_or_skip_settled])
  next
    case False
    with Cons.prems have mem: "(path, perms, msg, attrs) \<in> set rs" by simp
    obtain a b c d where r: "r = (a, b, c, d)"
      by (cases r) auto
    show ?thesis
      unfolding r best_effort.simps by (rule Cons.IH [OF mem])
  qed
qed

subsection \<open>The blocks of setupUnveil as runs of best-effort reveals\<close>

lemma systemPaths_loop_best_effort:
  "fst (systemPaths_loop sys ps s n) =
     best_effort sys (map (\<lambda>(path, perms). (path, perms, ''unveil skipped'', [(''path'', path)])) ps) s"
proof (induction ps arbitrary: s n)
  case Nil
  show ?case by simp
next
  case (Cons p ps)
  obtain path perms where p: "p = (path, perms)" by (cases p)
  show ?case
    unfolding p
    by (cases "unveil_errno sys path perms")
       (simp_all add: Cons.IH unix_Unveil_eq unveil_or_skip_eq slog_Debug_def)
qed

lemma xdgPaths_loop_best_effort:
  "xdgPaths_loop sys xs s =
     best_effort sys (map (\<lambda>xp. (xp, ''rwc'', ''unveil xdg path skipped'', [(''path'', xp)])) xs) s"
  by (induction xs arbitrary: s) simp_all

lemma setupUnveil_home_best_effort:
  "setupUnveil_home sys dataDir s = best_effort sys (home_reveals sys dataDir) s"
  by (simp add: setupUnveil_home_def home_reveals_def Let_def xdgPaths_loop_best_effort
      best_effort_append split: sum.splits)

lemma setupUnveil_tmp_best_effort:
  "\<exists>s1. reveals_only s s1 \<and>
     fst (setupUnveil_tmp sys s n) =
       best_effort sys [(tmp_dir sys, ''rwc'', ''unveil temp dir skipped'', [(''path'', tmp_dir sys)])] s1"
proof (cases "os_MkdirAll sys (filepath_Join sys [os_TempDir sys, ''crush-'' @ itoa (os_Getuid sys)])")
  case None
  then have "fst (setupUnveil_tmp sys s n) =
       best_effort sys [(tmp_dir sys, ''rwc'', ''unveil temp dir skipped'', [(''path'', tmp_dir sys)])] s"
    by (simp add: setupUnveil_tmp_def tmp_dir_def unix_Unveil_eq unveil_or_skip_eq Let_def
        split: option.splits)
  then show ?thesis using reveals_only_refl by blast
next
  case (Some err)
  let ?s1 = "slog_Debug ''failed to create temp dir''
      [(''path'', filepath_Join sys [os_TempDir sys, ''crush-'' @ itoa (os_Getuid sys)]),
       (''error'', Error err)] s"
  from Some have "fst (setupUnveil_tmp sys s n) =
       best_effort sys [(tmp_dir sys, ''rwc'', ''unveil temp dir skipped'', [(''path'', tmp_dir sys)])] ?s1"
    by (simp add: setupUnveil_tmp_def tmp_dir_def unix_Unveil_eq unveil_or_skip_eq Let_def
        split: option.splits)
  then show ?thesis using reveals_only_slog_Debug by blast
qed

subsection \<open>The mandatory reveals\<close>

lemma setupUnveil_dataDir_result:
  "fst (setupUnveil_dataDir sys dataDir s n) = mandatory_reveal_error sys ''data'' dataDir ''rwc''"
  by (simp add: setupUnveil_dataDir_def mandatory_reveal_error_def unix_Unveil_eq
      split: sum.splits option.splits)

lemma setupUnveil_workingDir_result:
  "fst (setupUnveil_workingDir sys workingDir s n) = mandatory_reveal_error sys ''working'' workingDir ''rwcx''"
  by (simp add: setupUnveil_workingDir_def mandatory_reveal_error_def unix_Unveil_eq
      split: sum.splits option.splits)

lemma reveals_only_dataDir: "reveals_only s (fst (snd (setupUnveil_dataDir sys dataDir s n)))"
  by (simp add: setupUnveil_dataDir_def unix_Unveil_eq reveals_only_unveiled
      split: sum.splits option.splits)

lemma reveals_only_workingDir: "reveals_only s (fst (snd (setupUnveil_workingDir sys workingDir s n)))"
  by (simp add: setupUnveil_workingDir_def unix_Unveil_eq reveals_only_unveiled
      split: sum.splits option.splits)


subsection \<open>setupUnveil and Init as a whole\<close>

lemma system_loop_state:
  "fst (systemPaths_loop sys systemPaths s n) = best_effort sys system_reveals s"
  by (simp add: systemPaths_loop_best_effort system_reveals_def)

lemma setupUnveil_cases:
  obtains
    (data) err s1 n1 s2 n2 where
      "systemPaths_loop sys systemPaths s 0 = (s1, n1)"
      "setupUnveil_dataDir sys dataDir s1 n1 = (Some err, s2, n2)"
      "setupUnveil sys dataDir workingDir s = (Some err, s2)"
  | (working) err s1 n1 s2 n2 s3 n3 where
      "systemPaths_loop sys systemPaths s 0 = (s1, n1)"
      "setupUnveil_dataDir sys dataDir s1 n1 = (None, s2, n2)"
      "setupUnveil_workingDir sys workingDir s2 n2 = (Some err, s3, n3)"
      "setupUnveil sys dataDir workingDir s = (Some err, s3)"
  | (complete) s1 n1 s2 n2 s3 n3 s4 n4 where
      "systemPaths_loop sys systemPaths s 0 = (s1, n1)"
      "setupUnveil_dataDir sys dataDir s1 n1 = (None, s2, n2)"
      "setupUnveil_workingDir sys workingDir s2 n2 = (None, s3, n3)"
      "setupUnveil_tmp sys (setupUnveil_home sys dataDir s3) n3 = (s4, n4)"
      "setupUnveil sys dataDir workingDir s =
         (None, slog_Debug ''unveil setup complete'' [(''total_paths'', utoa n4)] s4)"
proof -
  obtain s1 n1 where a: "systemPaths_loop sys systemPaths s 0 = (s1, n1)"
    by (cases "systemPaths_loop sys systemPaths s 0")
  obtain r2 s2 n2 where b: "setupUnveil_dataDir sys dataDir s1 n1 = (r2, s2, n2)"
    by (cases "setupUnveil_dataDir sys dataDir s1 n1")
  obtain r3 s3 n3 where c: "setupUnveil_workingDir sys workingDir s2 n2 = (r3, s3, n3)"
    by (cases "setupUnveil_workingDir sys workingDir s2 n2")
  obtain s4 n4 where d: "setupUnveil_tmp sys (setupUnveil_home sys dataDir s3) n3 = (s4, n4)"
    by (cases "setupUnveil_tmp sys (setupUnveil_home sys dataDir s3) n3")
  show thesis
  proof (cases r2)
    case (Some err)
    with a b show thesis by (intro data [of s1 n1 err s2 n2]) (simp_all add: setupUnveil_def)
  next
    case None
    note r2 = this
    show thesis
    proof (cases r3)
      case (Some err)
      with a b c r2 show thesis
        by (intro working [of s1 n1 s2 n2 err s3 n3]) (simp_all add: setupUnveil_def)
    next
      case None
      with a b c d r2 show thesis
        by (intro complete [of s1 n1 s2 n2 s3 n3 s4 n4]) (simp_all add: setupUnveil_def)
    qed
  qed
qed

lemma setupUnveil_result:
  "fst (setupUnveil sys dataDir workingDir s) =
     (case mandatory_reveal_error sys ''data'' dataDir ''rwc'' of
        Some err \<Rightarrow> Some err
      | None \<Rightarrow> mandatory_reveal_error sys ''working'' workingDir ''rwcx'')"
proof (cases rule: setupUnveil_cases [of sys s dataDir workingDir])
  case (data err s1 n1 s2 n2)
  from data(2) have "mandatory_reveal_error sys ''data'' dataDir ''rwc'' = Some err"
    using setupUnveil_dataDir_result [of sys dataDir s1 n1] by simp
  with data(3) show ?thesis by simp
next
  case (working err s1 n1 s2 n2 s3 n3)
  from working(2) have "mandatory_reveal_error sys ''data'' dataDir ''rwc'' = None"
    using setupUnveil_dataDir_result [of sys dataDir s1 n1] by simp
  moreover from working(3) have "mandatory_reveal_error sys ''working'' workingDir ''rwcx'' = Some err"
    using setupUnveil_workingDir_result [of sys workingDir s2 n2] by simp
  ultimately show ?thesis using working(4) by simp
next
  case (complete s1 n1 s2 n2 s3 n3 s4 n4)
  from complete(2) have "mandatory_reveal_error sys ''data'' dataDir ''rwc'' = None"
    using setupUnveil_dataDir_result [of sys dataDir s1 n1] by simp
  moreover from complete(3) have "mandatory_reveal_error sys ''working'' workingDir ''rwcx'' = None"
    using setupUnveil_workingDir_result [of sys workingDir s2 n2] by simp
  ultimately show ?thesis using complete(5) by simp
qed

lemma setupUnveil_after_system:
  "reveals_only (best_effort sys system_reveals s) (snd (setupUnveil sys dataDir workingDir s))"
proof (cases rule: setupUnveil_cases [of sys s dataDir workingDir])
  case (data err s1 n1 s2 n2)
  have "s1 = best_effort sys system_reveals s"
    using system_loop_state [of sys s 0] data(1) by simp
  moreover have "reveals_only s1 s2"
    using reveals_only_dataDir [of s1 sys dataDir n1] data(2) by simp
  ultimately show ?thesis using data(3) by simp
next
  case (working err s1 n1 s2 n2 s3 n3)
  have "s1 = best_effort sys system_reveals s"
    using system_loop_state [of sys s 0] working(1) by simp
  moreover have "reveals_only s1 s2"
    using reveals_only_dataDir [of s1 sys dataDir n1] working(2) by simp
  moreover have "reveals_only s2 s3"
    using reveals_only_workingDir [of s2 sys workingDir n2] working(3) by simp
  ultimately show ?thesis using working(4) by (auto intro: reveals_only_trans)
next
  case (complete s1 n1 s2 n2 s3 n3 s4 n4)
  have s1: "s1 = best_effort sys system_reveals s"
    using system_loop_state [of sys s 0] complete(1) by simp
  have a: "reveals_only s1 s2"
    using reveals_only_dataDir [of s1 sys dataDir n1] complete(2) by simp
  have b: "reveals_only s2 s3"
    using reveals_only_workingDir [of s2 sys workingDir n2] complete(3) by simp
  have c: "reveals_only s3 (setupUnveil_home sys dataDir s3)"
    by (simp add: setupUnveil_home_best_effort reveals_only_best_effort)
  obtain st where st: "reveals_only (setupUnveil_home sys dataDir s3) st"
      "s4 = best_effort sys [(tmp_dir sys, ''rwc'', ''unveil temp dir skipped'', [(''path'', tmp_dir sys)])] st"
    using setupUnveil_tmp_best_effort [of "setupUnveil_home sys dataDir s3" sys n3] complete(4) by auto
  have d: "reveals_only st s4"
    unfolding st(2) by (rule reveals_only_best_effort)
  have e: "reveals_only s4 (slog_Debug ''unveil setup complete'' [(''total_paths'', utoa n4)] s4)"
    by (rule reveals_only_slog_Debug)
  have "reveals_only s1 (slog_Debug ''unveil setup complete'' [(''total_paths'', utoa n4)] s4)"
    using a b c st(1) d e by (blast intro: reveals_only_trans)
  then show ?thesis using s1 complete(5) by simp
qed

lemma setupUnveil_reveals_only: "reveals_only s (snd (setupUnveil sys dataDir workingDir s))"
  using reveals_only_best_effort setupUnveil_after_system by (rule reveals_only_trans)

lemma setupUnveil_settled:
  assumes ok: "fst (setupUnveil sys dataDir workingDir s) = None"
    and mem: "(path, perms, msg, attrs) \<in> set (optional_reveals sys dataDir)"
  shows "(case unveil_errno sys path perms of
            Some err \<Rightarrow> (msg, attrs @ [(''error'', Error err)]) \<in> set (slog (snd (setupUnveil sys dataDir workingDir s)))
          | None \<Rightarrow> (path, perms) \<in> set (unveiled (snd (setupUnveil sys dataDir workingDir s))))"
proof (cases rule: setupUnveil_cases [of sys s dataDir workingDir])
  case (data err s1 n1 s2 n2)
  with ok show ?thesis by simp
next
  case (working err s1 n1 s2 n2 s3 n3)
  with ok show ?thesis by simp
next
  case (complete s1 n1 s2 n2 s3 n3 s4 n4)
  let ?tmp = "(tmp_dir sys, ''rwc'', ''unveil temp dir skipped'', [(''path'', tmp_dir sys)])"
  let ?final = "slog_Debug ''unveil setup complete'' [(''total_paths'', utoa n4)] s4"
  have final: "snd (setupUnveil sys dataDir workingDir s) = ?final"
    using complete(5) by simp
  have s1: "s1 = best_effort sys system_reveals s"
    using system_loop_state [of sys s 0] complete(1) by simp
  have a: "reveals_only s1 s2"
    using reveals_only_dataDir [of s1 sys dataDir n1] complete(2) by simp
  have b: "reveals_only s2 s3"
    using reveals_only_workingDir [of s2 sys workingDir n2] complete(3) by simp
  let ?sh = "best_effort sys (home_reveals sys dataDir) s3"
  have c: "reveals_only s3 ?sh"
    by (rule reveals_only_best_effort)
  obtain st where st: "reveals_only ?sh st" "s4 = best_effort sys [?tmp] st"
    using setupUnveil_tmp_best_effort [of "setupUnveil_home sys dataDir s3" sys n3] complete(4)
    by (auto simp: setupUnveil_home_best_effort)
  have d: "reveals_only st s4"
    unfolding st(2) by (rule reveals_only_best_effort)
  have e: "reveals_only s4 ?final"
    by (rule reveals_only_slog_Debug)
  from mem consider
      (sys) "(path, perms, msg, attrs) \<in> set system_reveals"
    | (home) "(path, perms, msg, attrs) \<in> set (home_reveals sys dataDir)"
    | (tmp) "(path, perms, msg, attrs) = ?tmp"
    by (auto simp: optional_reveals_def)
  then show ?thesis
  proof cases
    case sys
    have "reveals_only s1 ?final"
      using a b c st(1) d e by (blast intro: reveals_only_trans)
    from settled_mono [OF this best_effort_settled [OF sys, of sys s, folded s1]]
    show ?thesis unfolding final .
  next
    case home
    have "reveals_only ?sh ?final"
      using st(1) d e by (blast intro: reveals_only_trans)
    from settled_mono [OF this best_effort_settled [OF home, of sys s3]]
    show ?thesis unfolding final .
  next
    case tmp
    then have "(path, perms, msg, attrs) \<in> set [?tmp]" by simp
    from settled_mono [OF e best_effort_settled [OF this, of sys st, folded st(2)]]
    show ?thesis unfolding final .
  qed
qed

lemma unix_UnveilBlock_eq:
  "unix_UnveilBlock sys s =
     (unveil_block_errno sys, if unveil_block_errno sys = None then s\<lparr>unveil_locked := True\<rparr> else s)"
  by (simp add: unix_UnveilBlock_def split: option.splits)

lemma Init_already: "initialized s \<Longrightarrow> Init sys dataDir workingDir s = (Some (New ''security already initialized''), s)"
  by (simp add: Init_def)

lemma Init_aborted:
  assumes "\<not> initialized s" and "fst (setupUnveil sys dataDir workingDir s) = Some err"
  shows "Init sys dataDir workingDir s =
     (Some (Wrap ''unveil setup failed: '' err), snd (setupUnveil sys dataDir workingDir s))"
  using assms by (cases "setupUnveil sys dataDir workingDir s") (simp add: Init_def)

lemma Init_continued:
  assumes "\<not> initialized s" and "fst (setupUnveil sys dataDir workingDir s) = None"
  shows "Init sys dataDir workingDir s =
     (let s1 = snd (setupUnveil sys dataDir workingDir s) in
      case unveil_block_errno sys of
        Some err \<Rightarrow> (Some (Wrap ''unveil lock failed: '' err), s1)
      | None \<Rightarrow>
          if pledge_permitted (pledged s) allPromises
          then (None,
                slog_Debug ''openbsd security: sandbox active''
                  [(''promises'', allPromises), (''data_dir'', dataDir), (''working_dir'', workingDir)]
                  (s1\<lparr>unveil_locked := True, pledged := Some (set (Fields allPromises)),
                      initialized := True\<rparr>))
          else (Some (Wrap ''pledge failed: '' (New ''operation not permitted'')),
                s1\<lparr>unveil_locked := True\<rparr>))"
proof -
  have "pledged (snd (setupUnveil sys dataDir workingDir s)) = pledged s"
    using setupUnveil_reveals_only [of s sys dataDir workingDir] by (simp add: reveals_only_def)
  with assms show ?thesis
    by (cases "setupUnveil sys dataDir workingDir s")
       (simp add: Init_def unix_UnveilBlock_eq unix_PledgePromises_def Let_def split: option.splits)
qed

lemma Init_succeeded:
  assumes "Init sys dataDir workingDir s = (None, s')"
  shows "\<not> initialized s \<and> fst (setupUnveil sys dataDir workingDir s) = None
     \<and> unveil_block_errno sys = None \<and> pledge_permitted (pledged s) allPromises
     \<and> initialized s' \<and> unveil_locked s' \<and> pledged s' = Some (set (Fields allPromises))
     \<and> unveiled s' = unveiled (snd (setupUnveil sys dataDir workingDir s))"
proof -
  have fresh: "\<not> initialized s"
    using assms by (auto simp: Init_def)
  have ok: "fst (setupUnveil sys dataDir workingDir s) = None"
  proof (cases "fst (setupUnveil sys dataDir workingDir s)")
    case None
    then show ?thesis .
  next
    case (Some err)
    from Init_aborted [OF fresh this] assms show ?thesis by simp
  qed
  from Init_continued [OF fresh ok] assms show ?thesis
    using fresh ok by (auto simp: Let_def split: option.splits if_splits)
qed

subsection \<open>The promises\<close>

lemma Fields_allPromises:
  "Fields allPromises =
     [''stdio'', ''rpath'', ''wpath'', ''cpath'', ''dpath'', ''flock'', ''fattr'', ''proc'', ''exec'',
      ''inet'', ''dns'', ''unix'', ''tty'', ''getpw'']"
  by (simp add: Fields_def allPromises_def)

lemma Fields_shutdownPromises: "Fields shutdownPromises = [''stdio'']"
  by (simp add: Fields_def shutdownPromises_def)

lemma shutdown_within_all: "set (Fields shutdownPromises) \<subseteq> set (Fields allPromises)"
  by (simp add: Fields_allPromises Fields_shutdownPromises)

lemma Shutdown_eq:
  "Shutdown s =
     (if \<not> initialized s then (None, s)
      else if pledge_permitted (pledged s) shutdownPromises
        then (None, slog_Debug ''openbsd security: shutdown promises active'' []
                (s\<lparr>pledged := Some (set (Fields shutdownPromises))\<rparr>))
      else (Some (New ''operation not permitted''),
            slog_Debug ''pledge shutdown failed'' [(''error'', ''operation not permitted'')] s))"
  by (simp add: Shutdown_def unix_PledgePromises_def)

lemma Shutdown_narrowed:
  assumes "initialized s" and "pledged s = Some cur" and "set (Fields shutdownPromises) \<subseteq> cur"
  shows "Shutdown s =
     (None, slog_Debug ''openbsd security: shutdown promises active'' []
              (s\<lparr>pledged := Some (set (Fields shutdownPromises))\<rparr>))"
  using assms by (simp add: Shutdown_eq pledge_permitted_def)

lemma Shutdown_flag: "initialized (snd (Shutdown s)) = initialized s"
  by (simp add: Shutdown_eq)

subsection \<open>The example system\<close>

text \<open>On the example system only \<^verbatim>\<open>/data\<close> and \<^verbatim>\<open>/work\<close> can be revealed: every
  best-effort reveal fails, and \<^verbatim>\<open>Init\<close> succeeds all the same.\<close>

lemma example_setup_ok: "fst (setupUnveil example_os ''/data'' ''/work'' s) = None"
  by (simp add: setupUnveil_result mandatory_reveal_error_def example_os_def)

lemma example_Init_ok: "fst (Init example_os ''/data'' ''/work'' fresh_sandbox) = None"
proof -
  have fresh: "\<not> initialized fresh_sandbox" by (simp add: fresh_sandbox_def)
  have lock: "unveil_block_errno example_os = None" by (simp add: example_os_def)
  have perm: "pledge_permitted (pledged fresh_sandbox) allPromises"
    by (simp add: pledge_permitted_def fresh_sandbox_def)
  show ?thesis
    using Init_continued [OF fresh example_setup_ok] lock perm by (simp add: Let_def)
qed

lemma example_Init_pair:
  "Init example_os ''/data'' ''/work'' fresh_sandbox =
     (None, snd (Init example_os ''/data'' ''/work'' fresh_sandbox))"
  using example_Init_ok by (simp add: prod_eq_iff)

subsection \<open>Init, Shutdown and IsInitialized\<close>

text \<open>
  Claim C1, as the code has it. The package keeps one boolean, \<^verbatim>\<open>initialized\<close>, which
  \<^verbatim>\<open>Init\<close> sets and nothing clears: \<^verbatim>\<open>IsInitialized\<close> returns it, and after a successful
  \<^verbatim>\<open>Init\<close> followed by \<^verbatim>\<open>Shutdown\<close> (whatever \<^verbatim>\<open>Shutdown\<close> returns) it still returns true.
\<close>

theorem IsInitialized_survives_Shutdown:
  assumes "Init sys dataDir workingDir s = (None, s1)" and "Shutdown s1 = (r, s2)"
  shows "IsInitialized s1 \<and> IsInitialized s2 \<and> initialized s2 = initialized s1"
proof -
  have "initialized s1" using Init_succeeded [OF assms(1)] by simp
  moreover have "initialized s2 = initialized s1"
    using Shutdown_flag [of s1] assms(2) by simp
  ultimately show ?thesis by (simp add: IsInitialized_def)
qed

theorem IsInitialized_survives_Shutdown_witness:
  "IsInitialized (snd (Shutdown (snd (Init example_os ''/data'' ''/work'' fresh_sandbox))))"
proof -
  have "Shutdown (snd (Init example_os ''/data'' ''/work'' fresh_sandbox)) =
      (fst (Shutdown (snd (Init example_os ''/data'' ''/work'' fresh_sandbox))),
       snd (Shutdown (snd (Init example_os ''/data'' ''/work'' fresh_sandbox))))"
    by simp
  from IsInitialized_survives_Shutdown [OF example_Init_pair this] show ?thesis by simp
qed

text \<open>
  Claim C1, as stated, fails on the example system: \<^verbatim>\<open>Init\<close> succeeds, \<^verbatim>\<open>Shutdown\<close>
  succeeds, and \<^verbatim>\<open>IsInitialized\<close> then returns true, not false.
\<close>

theorem IsInitialized_after_Shutdown_counterexample:
  "fst (Init example_os ''/data'' ''/work'' fresh_sandbox) = None
   \<and> fst (Shutdown (snd (Init example_os ''/data'' ''/work'' fresh_sandbox))) = None
   \<and> IsInitialized (snd (Shutdown (snd (Init example_os ''/data'' ''/work'' fresh_sandbox))))"
proof -
  let ?s1 = "snd (Init example_os ''/data'' ''/work'' fresh_sandbox)"
  have s1: "initialized ?s1" "pledged ?s1 = Some (set (Fields allPromises))"
    using Init_succeeded [OF example_Init_pair] by simp_all
  have "fst (Shutdown ?s1) = None"
    using Shutdown_narrowed [OF s1 shutdown_within_all] by simp
  moreover have "IsInitialized (snd (Shutdown ?s1))"
    using s1(1) by (simp add: IsInitialized_def Shutdown_flag)
  ultimately show ?thesis using example_Init_ok by simp
qed

text \<open>
  Claim C4. After a successful \<^verbatim>\<open>Init\<close>, a second \<^verbatim>\<open>Init\<close>, with whatever directories and
  on whatever system, fails with \<^verbatim>\<open>security already initialized\<close> and returns the state
  it was given: the flag, the revealed paths, the lock, the promises and the log are
  unchanged.
\<close>

theorem second_Init_rejected:
  assumes "Init sys dataDir workingDir s = (None, s1)"
  shows "Init sys' dataDir' workingDir' s1 = (Some (New ''security already initialized''), s1)"
  using Init_succeeded [OF assms] by (simp add: Init_already)

theorem second_Init_rejected_witness:
  "Init example_os ''/elsewhere'' ''/tmp'' (snd (Init example_os ''/data'' ''/work'' fresh_sandbox)) =
     (Some (New ''security already initialized''), snd (Init example_os ''/data'' ''/work'' fresh_sandbox))"
  by (rule second_Init_rejected [OF example_Init_pair])

text \<open>
  Claim C5. The tokens of \<^verbatim>\<open>allPromises\<close> are exactly the fourteen promises
  \<^verbatim>\<open>stdio rpath wpath cpath dpath flock fattr proc exec inet dns unix tty getpw\<close>, and the
  tokens of \<^verbatim>\<open>shutdownPromises\<close> are exactly \<^verbatim>\<open>stdio\<close>; a successful \<^verbatim>\<open>Init\<close> leaves the
  first set in force, and a successful \<^verbatim>\<open>Shutdown\<close> of an initialized sandbox the second.
\<close>

theorem pledge_promise_sets:
  "set (Fields allPromises) =
     {''stdio'', ''rpath'', ''wpath'', ''cpath'', ''dpath'', ''flock'', ''fattr'', ''proc'', ''exec'',
      ''inet'', ''dns'', ''unix'', ''tty'', ''getpw''}
   \<and> set (Fields shutdownPromises) = {''stdio''}
   \<and> (Init sys dataDir workingDir s = (None, s1) \<longrightarrow>
        pledged s1 =
          Some {''stdio'', ''rpath'', ''wpath'', ''cpath'', ''dpath'', ''flock'', ''fattr'', ''proc'',
                ''exec'', ''inet'', ''dns'', ''unix'', ''tty'', ''getpw''})
   \<and> (initialized s \<and> Shutdown s = (None, s2) \<longrightarrow> pledged s2 = Some {''stdio''})"
proof -
  have a: "set (Fields allPromises) =
     {''stdio'', ''rpath'', ''wpath'', ''cpath'', ''dpath'', ''flock'', ''fattr'', ''proc'', ''exec'',
      ''inet'', ''dns'', ''unix'', ''tty'', ''getpw''}"
    unfolding Fields_allPromises by (simp only: list.set)
  have b: "set (Fields shutdownPromises) = {''stdio''}"
    by (simp add: Fields_shutdownPromises)
  have c: "pledged s1 = Some (set (Fields allPromises))"
    if "Init sys dataDir workingDir s = (None, s1)"
    using Init_succeeded [OF that] by simp
  have d: "pledged s2 = Some (set (Fields shutdownPromises))"
    if "initialized s" "Shutdown s = (None, s2)"
    using that by (auto simp: Shutdown_eq split: if_splits)
  show ?thesis
    using a b c d by (simp only: simp_thms) blast
qed

theorem pledge_promise_sets_witness:
  "pledged (snd (Init example_os ''/data'' ''/work'' fresh_sandbox)) =
     Some {''stdio'', ''rpath'', ''wpath'', ''cpath'', ''dpath'', ''flock'', ''fattr'', ''proc'',
           ''exec'', ''inet'', ''dns'', ''unix'', ''tty'', ''getpw''}
   \<and> pledged (snd (Shutdown (snd (Init example_os ''/data'' ''/work'' fresh_sandbox)))) = Some {''stdio''}"
proof -
  let ?s1 = "snd (Init example_os ''/data'' ''/work'' fresh_sandbox)"
  note sets = pledge_promise_sets [where sys = example_os and dataDir = "''/data''"
      and workingDir = "''/work''" and s = fresh_sandbox and ?s1.0 = ?s1]
  have a: "pledged ?s1 =
     Some {''stdio'', ''rpath'', ''wpath'', ''cpath'', ''dpath'', ''flock'', ''fattr'', ''proc'',
           ''exec'', ''inet'', ''dns'', ''unix'', ''tty'', ''getpw''}"
    using sets example_Init_pair by blast
  have init: "initialized ?s1"
    using Init_succeeded [OF example_Init_pair] by simp
  have "pledged ?s1 = Some (set (Fields allPromises))"
    using Init_succeeded [OF example_Init_pair] by simp
  from Shutdown_narrowed [OF init this shutdown_within_all]
  have down: "Shutdown ?s1 = (None, snd (Shutdown ?s1))"
    by simp
  have b: "pledged (snd (Shutdown ?s1)) = Some {''stdio''}"
    using pledge_promise_sets [where s = ?s1 and ?s2.0 = "snd (Shutdown ?s1)"] init down by blast
  from a b show ?thesis by simp
qed

text \<open>
  Claim C9. \<^verbatim>\<open>Shutdown\<close> of a sandbox that is not initialized succeeds and returns the
  state unchanged, as does the stub. After a successful \<^verbatim>\<open>Init\<close>, \<^verbatim>\<open>Shutdown\<close> succeeds
  twice in a row; the promises in force are \<^verbatim>\<open>stdio\<close> after the first call and after the
  second, and the second call changes neither the flag nor the reveal list nor its lock.
  In no state does \<^verbatim>\<open>Shutdown\<close> widen the promises: those in force after it are among
  those in force before it.
\<close>

theorem Shutdown_idempotent:
  "(\<not> initialized s \<longrightarrow> Shutdown s = (None, s))
   \<and> Shutdown_stub s = (None, s)
   \<and> (Init sys dataDir workingDir s = (None, s1) \<longrightarrow>
        (\<exists>s2 s3. Shutdown s1 = (None, s2) \<and> Shutdown s2 = (None, s3)
           \<and> pledged s2 = Some {''stdio''} \<and> pledged s3 = Some {''stdio''}
           \<and> initialized s3 = initialized s2 \<and> unveiled s3 = unveiled s2
           \<and> unveil_locked s3 = unveil_locked s2))
   \<and> (Shutdown s = (r, s') \<longrightarrow>
        (case pledged s of
           None \<Rightarrow> True
         | Some cur \<Rightarrow> (case pledged s' of None \<Rightarrow> False | Some new \<Rightarrow> new \<subseteq> cur)))"
proof -
  have a: "Shutdown s = (None, s)" if "\<not> initialized s"
    using that by (simp add: Shutdown_eq)
  have b: "Shutdown_stub s = (None, s)"
    by (simp add: Shutdown_stub_def)
  have c: "\<exists>s2 s3. Shutdown s1 = (None, s2) \<and> Shutdown s2 = (None, s3)
           \<and> pledged s2 = Some {''stdio''} \<and> pledged s3 = Some {''stdio''}
           \<and> initialized s3 = initialized s2 \<and> unveiled s3 = unveiled s2
           \<and> unveil_locked s3 = unveil_locked s2"
    if run: "Init sys dataDir workingDir s = (None, s1)"
  proof -
    let ?down = "\<lambda>t. slog_Debug ''openbsd security: shutdown promises active'' []
        (t\<lparr>pledged := Some (set (Fields shutdownPromises))\<rparr>)"
    have s1: "initialized s1" "pledged s1 = Some (set (Fields allPromises))"
      using Init_succeeded [OF run] by simp_all
    have first: "Shutdown s1 = (None, ?down s1)"
      by (rule Shutdown_narrowed [OF s1 shutdown_within_all])
    have s2: "initialized (?down s1)" "pledged (?down s1) = Some (set (Fields shutdownPromises))"
      using s1(1) by simp_all
    have second: "Shutdown (?down s1) = (None, ?down (?down s1))"
      by (rule Shutdown_narrowed [OF s2]) simp
    show ?thesis
      using first second by (simp add: Fields_shutdownPromises)
  qed
  have d: "case pledged s of
           None \<Rightarrow> True
         | Some cur \<Rightarrow> (case pledged s' of None \<Rightarrow> False | Some new \<Rightarrow> new \<subseteq> cur)"
    if "Shutdown s = (r, s')"
    using that by (auto simp: Shutdown_eq pledge_permitted_def split: if_splits option.splits)
  show ?thesis
    using a b c d by blast
qed

theorem Shutdown_idempotent_witness:
  "Shutdown fresh_sandbox = (None, fresh_sandbox)
   \<and> fst (Shutdown (snd (Init example_os ''/data'' ''/work'' fresh_sandbox))) = None
   \<and> fst (Shutdown (snd (Shutdown (snd (Init example_os ''/data'' ''/work'' fresh_sandbox))))) = None
   \<and> pledged (snd (Shutdown (snd (Shutdown (snd (Init example_os ''/data'' ''/work'' fresh_sandbox))))))
       = Some {''stdio''}"
proof -
  let ?s1 = "snd (Init example_os ''/data'' ''/work'' fresh_sandbox)"
  have fresh: "\<not> initialized fresh_sandbox" by (simp add: fresh_sandbox_def)
  have a: "Shutdown fresh_sandbox = (None, fresh_sandbox)"
    using Shutdown_idempotent [where s = fresh_sandbox] fresh by blast
  obtain s2 s3 where twice: "Shutdown ?s1 = (None, s2)" "Shutdown s2 = (None, s3)"
      "pledged s3 = Some {''stdio''}"
    using Shutdown_idempotent [where sys = example_os and dataDir = "''/data''"
        and workingDir = "''/work''" and s = fresh_sandbox and ?s1.0 = ?s1] example_Init_pair
    by blast
  from a twice show ?thesis by simp
qed

subsection \<open>The path-grant phase of Init\<close>

text \<open>
  Claim C3. Let \<^verbatim>\<open>Init\<close> run on a sandbox that is not initialized. If \<^verbatim>\<open>unveil\<close> refuses
  the data directory or the working directory, \<^verbatim>\<open>Init\<close> returns an error. More precisely, if
  the reveal of the data directory fails (its path cannot be resolved, or \<^verbatim>\<open>unveil\<close> refuses it, for example
  because it does not exist), \<^verbatim>\<open>Init\<close> returns that error wrapped as
  \<^verbatim>\<open>unveil setup failed\<close>, and the sandbox is left not initialized, not locked and with its
  promises as before; likewise if the reveal of the working directory fails. If both
  succeed, no reveal decides the result any more: it is the result of locking the reveal
  list and of the \<^verbatim>\<open>pledge\<close> request, and every best-effort reveal (system paths, home
  configuration paths, gitconfig, toolchain caches, temporary directory) has either been
  granted or has left the debug message of its failure in the log.
\<close>

theorem Init_path_grant_failures:
  assumes fresh: "\<not> initialized s" and run: "Init sys dataDir workingDir s = (res, s')"
  shows "(\<forall>a err. (dataDir \<noteq> [] \<and> filepath_Abs sys dataDir = Inr a
                  \<and> unveil_errno sys a ''rwc'' = Some err)
                \<or> (workingDir \<noteq> [] \<and> filepath_Abs sys workingDir = Inr a
                  \<and> unveil_errno sys a ''rwcx'' = Some err) \<longrightarrow>
            res \<noteq> None \<and> reveals_only s s')
     \<and> (\<forall>err. mandatory_reveal_error sys ''data'' dataDir ''rwc'' = Some err \<longrightarrow>
            res = Some (Wrap ''unveil setup failed: '' err) \<and> reveals_only s s')
     \<and> (\<forall>err. mandatory_reveal_error sys ''data'' dataDir ''rwc'' = None
              \<and> mandatory_reveal_error sys ''working'' workingDir ''rwcx'' = Some err \<longrightarrow>
            res = Some (Wrap ''unveil setup failed: '' err) \<and> reveals_only s s')
     \<and> (mandatory_reveal_error sys ''data'' dataDir ''rwc'' = None
          \<and> mandatory_reveal_error sys ''working'' workingDir ''rwcx'' = None \<longrightarrow>
            res = (case unveil_block_errno sys of
                     Some err \<Rightarrow> Some (Wrap ''unveil lock failed: '' err)
                   | None \<Rightarrow>
                       if pledge_permitted (pledged s) allPromises then None
                       else Some (Wrap ''pledge failed: '' (New ''operation not permitted'')))
            \<and> (\<forall>(path, perms, msg, attrs) \<in> set (optional_reveals sys dataDir).
                  case unveil_errno sys path perms of
                    Some err \<Rightarrow> (msg, attrs @ [(''error'', Error err)]) \<in> set (slog s')
                  | None \<Rightarrow> (path, perms) \<in> set (unveiled s')))"
proof -
  let ?grants = "setupUnveil sys dataDir workingDir s"
  have aborted: "res = Some (Wrap ''unveil setup failed: '' err) \<and> reveals_only s s'"
    if "fst ?grants = Some err" for err
    using Init_aborted [OF fresh that] run setupUnveil_reveals_only [of s sys dataDir workingDir]
    by simp
  have data: "res = Some (Wrap ''unveil setup failed: '' err) \<and> reveals_only s s'"
    if "mandatory_reveal_error sys ''data'' dataDir ''rwc'' = Some err" for err
    using that by (intro aborted) (simp add: setupUnveil_result)
  have working: "res = Some (Wrap ''unveil setup failed: '' err) \<and> reveals_only s s'"
    if "mandatory_reveal_error sys ''data'' dataDir ''rwc'' = None"
      and "mandatory_reveal_error sys ''working'' workingDir ''rwcx'' = Some err" for err
    using that by (intro aborted) (simp add: setupUnveil_result)
  have continued:
    "res = (case unveil_block_errno sys of
              Some err \<Rightarrow> Some (Wrap ''unveil lock failed: '' err)
            | None \<Rightarrow>
                if pledge_permitted (pledged s) allPromises then None
                else Some (Wrap ''pledge failed: '' (New ''operation not permitted'')))
     \<and> (\<forall>(path, perms, msg, attrs) \<in> set (optional_reveals sys dataDir).
           case unveil_errno sys path perms of
             Some err \<Rightarrow> (msg, attrs @ [(''error'', Error err)]) \<in> set (slog s')
           | None \<Rightarrow> (path, perms) \<in> set (unveiled s'))"
    if "mandatory_reveal_error sys ''data'' dataDir ''rwc'' = None"
      and "mandatory_reveal_error sys ''working'' workingDir ''rwcx'' = None"
  proof -
    have ok: "fst ?grants = None"
      using that by (simp add: setupUnveil_result)
    note init = Init_continued [OF fresh ok, unfolded run Let_def]
    have res: "res = (case unveil_block_errno sys of
              Some err \<Rightarrow> Some (Wrap ''unveil lock failed: '' err)
            | None \<Rightarrow>
                if pledge_permitted (pledged s) allPromises then None
                else Some (Wrap ''pledge failed: '' (New ''operation not permitted'')))"
      using init by (auto split: option.splits if_splits)
    have keeps: "set (slog (snd ?grants)) \<subseteq> set (slog s') \<and> unveiled s' = unveiled (snd ?grants)"
      using init by (auto split: option.splits if_splits)
    have "case unveil_errno sys path perms of
             Some err \<Rightarrow> (msg, attrs @ [(''error'', Error err)]) \<in> set (slog s')
           | None \<Rightarrow> (path, perms) \<in> set (unveiled s')"
      if "(path, perms, msg, attrs) \<in> set (optional_reveals sys dataDir)" for path perms msg attrs
      using setupUnveil_settled [OF ok that] keeps by (auto split: option.splits)
    with res show ?thesis by blast
  qed
  have refused: "res \<noteq> None \<and> reveals_only s s'"
    if "(dataDir \<noteq> [] \<and> filepath_Abs sys dataDir = Inr a \<and> unveil_errno sys a ''rwc'' = Some err)
        \<or> (workingDir \<noteq> [] \<and> filepath_Abs sys workingDir = Inr a
            \<and> unveil_errno sys a ''rwcx'' = Some err)" for a err
  proof (cases "mandatory_reveal_error sys ''data'' dataDir ''rwc''")
    case (Some e)
    from data [OF this] show ?thesis by simp
  next
    case None
    with that obtain e where "mandatory_reveal_error sys ''working'' workingDir ''rwcx'' = Some e"
      by (auto simp: mandatory_reveal_error_def)
    from working [OF None this] show ?thesis by simp
  qed
  from refused data working continued show ?thesis by blast
qed


theorem Init_path_grant_failures_witness:
  "fst (Init example_os ''/data'' ''/work'' fresh_sandbox) = None
   \<and> (''unveil skipped'', [(''path'', ''/usr/lib''), (''error'', ''no such file or directory'')])
       \<in> set (slog (snd (Init example_os ''/data'' ''/work'' fresh_sandbox)))
   \<and> (''unveil gitconfig skipped'', [(''error'', ''no such file or directory'')])
       \<in> set (slog (snd (Init example_os ''/data'' ''/work'' fresh_sandbox)))
   \<and> (''unveil temp dir skipped'', [(''path'', ''/tmp/crush-1000''), (''error'', ''no such file or directory'')])
       \<in> set (slog (snd (Init example_os ''/data'' ''/work'' fresh_sandbox)))
   \<and> fst (Init example_os ''/missing'' ''/work'' fresh_sandbox) =
       Some (Wrap ''unveil setup failed: ''
              (Wrap ''unveil data dir /missing: '' (New ''no such file or directory'')))
   \<and> \<not> initialized (snd (Init example_os ''/missing'' ''/work'' fresh_sandbox))
   \<and> fst (Init example_os ''/data'' ''/missing'' fresh_sandbox) =
       Some (Wrap ''unveil setup failed: ''
              (Wrap ''unveil working dir /missing: '' (New ''no such file or directory'')))
   \<and> \<not> initialized (snd (Init example_os ''/data'' ''/missing'' fresh_sandbox))"
proof -
  have fresh: "\<not> initialized fresh_sandbox" by (simp add: fresh_sandbox_def)
  have pair: "Init example_os d w fresh_sandbox =
      (fst (Init example_os d w fresh_sandbox), snd (Init example_os d w fresh_sandbox))" for d w
    by simp
  note good = Init_path_grant_failures [OF fresh pair [of "''/data''" "''/work''"]]
  note no_data = Init_path_grant_failures [OF fresh pair [of "''/missing''" "''/work''"]]
  note no_work = Init_path_grant_failures [OF fresh pair [of "''/data''" "''/missing''"]]
  have data_ok: "mandatory_reveal_error example_os ''data'' ''/data'' ''rwc'' = None"
    by (simp add: mandatory_reveal_error_def example_os_def)
  have work_ok: "mandatory_reveal_error example_os ''working'' ''/work'' ''rwcx'' = None"
    by (simp add: mandatory_reveal_error_def example_os_def)
  have data_bad: "mandatory_reveal_error example_os ''data'' ''/missing'' ''rwc'' =
      Some (Wrap ''unveil data dir /missing: '' (New ''no such file or directory''))"
    by (simp add: mandatory_reveal_error_def example_os_def)
  have work_bad: "mandatory_reveal_error example_os ''working'' ''/missing'' ''rwcx'' =
      Some (Wrap ''unveil working dir /missing: '' (New ''no such file or directory''))"
    by (simp add: mandatory_reveal_error_def example_os_def)
  have lock: "unveil_block_errno example_os = None" by (simp add: example_os_def)
  have perm: "pledge_permitted (pledged fresh_sandbox) allPromises"
    by (simp add: pledge_permitted_def fresh_sandbox_def)
  have lib: "(''/usr/lib'', ''r'', ''unveil skipped'', [(''path'', ''/usr/lib'')])
      \<in> set (optional_reveals example_os ''/data'')"
    by (simp add: optional_reveals_def system_reveals_def systemPaths_def)
  have git: "(''/home/u/.gitconfig'', ''r'', ''unveil gitconfig skipped'', [])
      \<in> set (optional_reveals example_os ''/data'')"
    by (simp add: optional_reveals_def home_reveals_def example_os_def)
  have tmp_dir: "tmp_dir example_os = ''/tmp/crush-1000''"
    by (simp add: tmp_dir_def example_os_def itoa_def)
  have tmp: "(''/tmp/crush-1000'', ''rwc'', ''unveil temp dir skipped'', [(''path'', ''/tmp/crush-1000'')])
      \<in> set (optional_reveals example_os ''/data'')"
    by (simp add: optional_reveals_def tmp_dir)
  have no: "unveil_errno example_os ''/usr/lib'' ''r'' = Some (New ''no such file or directory'')"
      "unveil_errno example_os ''/home/u/.gitconfig'' ''r'' = Some (New ''no such file or directory'')"
      "unveil_errno example_os ''/tmp/crush-1000'' ''rwc'' = Some (New ''no such file or directory'')"
    by (simp_all add: example_os_def)
  from good data_ok work_ok lock perm
  have g: "fst (Init example_os ''/data'' ''/work'' fresh_sandbox) = None"
    and all: "\<forall>(path, perms, msg, attrs) \<in> set (optional_reveals example_os ''/data'').
        case unveil_errno example_os path perms of
          Some err \<Rightarrow> (msg, attrs @ [(''error'', Error err)])
            \<in> set (slog (snd (Init example_os ''/data'' ''/work'' fresh_sandbox)))
        | None \<Rightarrow> (path, perms) \<in> set (unveiled (snd (Init example_os ''/data'' ''/work'' fresh_sandbox)))"
    by simp_all
  have l1: "(''unveil skipped'', [(''path'', ''/usr/lib''), (''error'', ''no such file or directory'')])
       \<in> set (slog (snd (Init example_os ''/data'' ''/work'' fresh_sandbox)))"
    using bspec [OF all lib] no(1) by simp
  have l2: "(''unveil gitconfig skipped'', [(''error'', ''no such file or directory'')])
       \<in> set (slog (snd (Init example_os ''/data'' ''/work'' fresh_sandbox)))"
    using bspec [OF all git] no(2) by simp
  have l3: "(''unveil temp dir skipped'', [(''path'', ''/tmp/crush-1000''), (''error'', ''no such file or directory'')])
       \<in> set (slog (snd (Init example_os ''/data'' ''/work'' fresh_sandbox)))"
    using bspec [OF all tmp] no(3) by simp
  from no_data data_bad
  have d: "fst (Init example_os ''/missing'' ''/work'' fresh_sandbox) =
       Some (Wrap ''unveil setup failed: ''
              (Wrap ''unveil data dir /missing: '' (New ''no such file or directory'')))"
      "reveals_only fresh_sandbox (snd (Init example_os ''/missing'' ''/work'' fresh_sandbox))"
    by simp_all
  from no_work data_ok work_bad
  have w: "fst (Init example_os ''/data'' ''/missing'' fresh_sandbox) =
       Some (Wrap ''unveil setup failed: ''
              (Wrap ''unveil working dir /missing: '' (New ''no such file or directory'')))"
      "reveals_only fresh_sandbox (snd (Init example_os ''/data'' ''/missing'' fresh_sandbox))"
    by simp_all
  from g l1 l2 l3 d w fresh show ?thesis
    by (simp add: reveals_only_def)
qed

end
